theory Spec2Isabelle
  imports Main "HOL-Library.AList" "HOL-Library.Char_ord" "HOL-Library.List_Lexorder"
begin

section \<open>The slacker notifier: a shallow embedding of slacker.go\<close>

text \<open>
  The package sends a message to a Slack web hook for every configured recipient and
  remembers what it sent in a JSON file, so that the same message is not sent twice in
  the same hour or day. Everything the Go code does to the outside (the file system, the
  clock, the web hook, the logger) is made explicit in a \<open>world\<close> value that every
  operation takes and returns. Go strings are byte sequences: \<^typ>\<open>string\<close>.
\<close>

subsection \<open>Errors\<close>

text \<open>
  Go errors are values. \<open>New\<close> is \<^verbatim>\<open>errors.New\<close>; \<open>Errorf\<close> is \<^verbatim>\<open>fmt.Errorf\<close> with its
  format string and arguments kept as they are; the other constructors are the errors
  of the operating system and of the standard library: \<open>NotExist\<close> for opening a
  path where no file is, \<open>Refused\<close> for a system call the environment refuses
  (permissions, a missing directory, a full disk), \<open>EOF\<close> for \<^verbatim>\<open>io.EOF\<close>, \<open>JsonError\<close>
  for input the JSON decoder rejects. A run-time panic of the Go code is a value of
  its own type: the only one the package can raise is the assignment to an entry of a
  nil map.
\<close>

datatype sysop = SysCreate | SysTruncate | SysWrite | SysOpenWrite

datatype error =
    New string
  | NotExist string
  | Refused sysop string
  | EOF
  | JsonError
  | Errorf string "fmtarg list"
and fmtarg = Str string | Err error

datatype panic = NilMapAssignment

subsection \<open>Bytes and UTF-8\<close>

definition dquote :: char where "dquote = CHR 0x22"
definition bslash :: char where "bslash = CHR 0x5C"

definition byte_in :: "string \<Rightarrow> nat \<Rightarrow> nat \<Rightarrow> nat \<Rightarrow> bool" where
  "byte_in s i lo hi \<longleftrightarrow> i < length s \<and> lo \<le> (of_char (s ! i) :: nat) \<and> (of_char (s ! i) :: nat) \<le> hi"

text \<open>
  \<open>utf8_size s\<close> is the size \<^verbatim>\<open>utf8.DecodeRuneInString\<close> reports for the sequence at the
  head of \<open>s\<close> when that sequence is well formed, and 0 when it is not (Go then returns
  \<^verbatim>\<open>RuneError\<close> with size 1).
\<close>

definition utf8_size :: "string \<Rightarrow> nat" where
  "utf8_size s =
     (if s = [] then 0
      else let x = (of_char (hd s) :: nat) in
        if x < 0x80 then 1
        else if x < 0xC2 then 0
        else if x < 0xE0 then (if byte_in s 1 0x80 0xBF then 2 else 0)
        else if x < 0xF0 then
          (if byte_in s 1 (if x = 0xE0 then 0xA0 else 0x80) (if x = 0xED then 0x9F else 0xBF)
              \<and> byte_in s 2 0x80 0xBF then 3 else 0)
        else if x < 0xF5 then
          (if byte_in s 1 (if x = 0xF0 then 0x90 else 0x80) (if x = 0xF4 then 0x8F else 0xBF)
              \<and> byte_in s 2 0x80 0xBF \<and> byte_in s 3 0x80 0xBF then 4 else 0)
        else 0)"

definition replacement :: string where
  "replacement = [CHR 0xEF, CHR 0xBF, CHR 0xBD]"

text \<open>\<^verbatim>\<open>utf8.ValidString\<close>, and the coercion to valid UTF-8 that encoding/json applies.\<close>

function valid_utf8 :: "string \<Rightarrow> bool" where
  "valid_utf8 [] = True"
| "valid_utf8 (c # cs) =
     (let n = utf8_size (c # cs) in n \<noteq> 0 \<and> valid_utf8 (drop (n - 1) cs))"
  by pat_completeness auto
termination
  by (relation "measure length") auto

function utf8_coerce :: "string \<Rightarrow> string" where
  "utf8_coerce [] = []"
| "utf8_coerce (c # cs) =
     (let n = utf8_size (c # cs) in
      if n = 0 then replacement @ utf8_coerce cs
      else take n (c # cs) @ utf8_coerce (drop (n - 1) cs))"
  by pat_completeness auto
termination
  by (relation "measure length") auto

text \<open>\<^verbatim>\<open>utf8.EncodeRune\<close>.\<close>

definition encode_rune :: "nat \<Rightarrow> string" where
  "encode_rune r =
     (if r < 0x80 then [char_of r]
      else if r < 0x800 then [char_of (0xC0 + r div 64), char_of (0x80 + r mod 64)]
      else if 0x10FFFF < r \<or> (0xD800 \<le> r \<and> r < 0xE000) then replacement
      else if r < 0x10000 then
        [char_of (0xE0 + r div 4096), char_of (0x80 + (r div 64) mod 64), char_of (0x80 + r mod 64)]
      else
        [char_of (0xF0 + r div 262144), char_of (0x80 + (r div 4096) mod 64),
         char_of (0x80 + (r div 64) mod 64), char_of (0x80 + r mod 64)])"

subsection \<open>encoding/json for \<^verbatim>\<open>map[string]string\<close>\<close>

text \<open>
  A Go map is \<open>NilMap\<close> or \<open>MapOf al\<close>, where the association list \<open>al\<close> stands for the
  mapping \<^term>\<open>map_of al\<close>: reading a key is \<^const>\<open>map_of\<close>, the assignment
  \<^verbatim>\<open>db[k] = v\<close> is \<^const>\<open>AList.update\<close>, and on a nil map the assignment panics.
\<close>

datatype gomap = NilMap | MapOf "(string \<times> string) list"

fun entries :: "gomap \<Rightarrow> string \<rightharpoonup> string" where
  "entries NilMap = Map.empty"
| "entries (MapOf al) = map_of al"

fun assign :: "gomap \<Rightarrow> string \<Rightarrow> string \<Rightarrow> panic + gomap" where
  "assign NilMap k v = Inl NilMapAssignment"
| "assign (MapOf al) k v = Inr (MapOf (AList.update k v al))"

text \<open>
  The encoder writes a string between double quotes, byte by byte as
  \<^verbatim>\<open>encodeState.string\<close> does with HTML escaping on (the default of an Encoder): the quote
  and the backslash get a backslash, backspace, form feed, newline, carriage return and
  tab their letter (Go before 1.22 wrote backspace and form feed as \<^verbatim>\<open>\u0008\<close> and
  \<^verbatim>\<open>\u000c\<close>, which decode to the same bytes),
  every other byte below 0x20 and the bytes \<^verbatim>\<open><\<close>, \<^verbatim>\<open>>\<close>, \<^verbatim>\<open>&\<close> become \<^verbatim>\<open>\u00XX\<close>; U+2028 and
  U+2029 are escaped, a byte that begins no well-formed UTF-8 sequence becomes
  the escape of U+FFFD, all other bytes are copied.
\<close>

definition hex :: "nat \<Rightarrow> char" where
  "hex n = ''0123456789abcdef'' ! n"

definition escape_ascii :: "char \<Rightarrow> string" where
  "escape_ascii c =
     (let x = (of_char c :: nat) in
      if c = dquote \<or> c = bslash then [bslash, c]
      else if x = 0x08 then [bslash, CHR ''b'']
      else if x = 0x0C then [bslash, CHR ''f'']
      else if x = 0x0A then [bslash, CHR ''n'']
      else if x = 0x0D then [bslash, CHR ''r'']
      else if x = 0x09 then [bslash, CHR ''t'']
      else if x < 0x20 \<or> c = CHR ''<'' \<or> c = CHR ''>'' \<or> c = CHR ''&''
        then [bslash, CHR ''u'', CHR ''0'', CHR ''0'', hex (x div 16), hex (x mod 16)]
      else [c])"

function quote_chars :: "string \<Rightarrow> string" where
  "quote_chars [] = []"
| "quote_chars (c # cs) =
     (if (of_char c :: nat) < 0x80 then escape_ascii c @ quote_chars cs
      else let n = utf8_size (c # cs) in
        if n = 0 then bslash # ''ufffd'' @ quote_chars cs
        else if take 3 (c # cs) = [CHR 0xE2, CHR 0x80, CHR 0xA8]
          then bslash # ''u2028'' @ quote_chars (drop 2 cs)
        else if take 3 (c # cs) = [CHR 0xE2, CHR 0x80, CHR 0xA9]
          then bslash # ''u2029'' @ quote_chars (drop 2 cs)
        else take n (c # cs) @ quote_chars (drop (n - 1) cs))"
  by pat_completeness auto
termination
  by (relation "measure length") auto

definition quote :: "string \<Rightarrow> string" where
  "quote s = dquote # quote_chars s @ [dquote]"

fun members :: "(string \<times> string) list \<Rightarrow> string" where
  "members [] = []"
| "members [(k, v)] = quote k @ '':'' @ quote v"
| "members ((k, v) # kvs) = quote k @ '':'' @ quote v @ '','' @ members kvs"

text \<open>
  \<^verbatim>\<open>json.Marshal\<close> of a map: the keys in increasing byte order, each key once; a nil map
  is \<^verbatim>\<open>null\<close>. Marshalling a map of strings cannot fail.
\<close>

definition json_Marshal :: "gomap \<Rightarrow> string" where
  "json_Marshal db =
     (case db of
        NilMap \<Rightarrow> ''null''
      | MapOf al \<Rightarrow> ''{'' @ members (sort_key fst (AList.clearjunk al)) @ ''}'')"

text \<open>
  The decoder. \<open>unquote\<close> reads a string literal after its opening quote, up to the
  closing quote, and returns the decoded bytes and the rest of the input
  (\<^verbatim>\<open>unquoteBytes\<close> on the literal the scanner delimits): escapes are resolved,
  \<^verbatim>\<open>\uXXXX\<close> is written as UTF-8 (two escapes that form a surrogate pair as one
  rune, a lone surrogate as U+FFFD), a raw byte below 0x20 is a syntax error, and raw
  bytes that are not well-formed UTF-8 become U+FFFD.
\<close>

definition hexval :: "char \<Rightarrow> nat option" where
  "hexval c =
     (let x = (of_char c :: nat) in
      if 0x30 \<le> x \<and> x \<le> 0x39 then Some (x - 0x30)
      else if 0x61 \<le> x \<and> x \<le> 0x66 then Some (x - 0x61 + 10)
      else if 0x41 \<le> x \<and> x \<le> 0x46 then Some (x - 0x41 + 10)
      else None)"

definition getu4 :: "string \<Rightarrow> nat option" where
  "getu4 s =
     (case s of
        b # u # h1 # h2 # h3 # h4 # _ \<Rightarrow>
          if b = bslash \<and> u = CHR ''u'' then
            (case (hexval h1, hexval h2, hexval h3, hexval h4) of
               (Some a, Some b, Some c, Some d) \<Rightarrow> Some (((a * 16 + b) * 16 + c) * 16 + d)
             | _ \<Rightarrow> None)
          else None
      | _ \<Rightarrow> None)"

definition unescape :: "char \<Rightarrow> char option" where
  "unescape e =
     (if e = dquote \<or> e = bslash \<or> e = CHR ''/'' then Some e
      else if e = CHR ''b'' then Some (CHR 0x08)
      else if e = CHR ''f'' then Some (CHR 0x0C)
      else if e = CHR ''n'' then Some (CHR 0x0A)
      else if e = CHR ''r'' then Some (CHR 0x0D)
      else if e = CHR ''t'' then Some (CHR 0x09)
      else None)"

definition emit :: "string \<Rightarrow> (string \<times> string) option \<Rightarrow> (string \<times> string) option" where
  "emit bs r = map_option (\<lambda>(s, rest). (bs @ s, rest)) r"

function unquote :: "string \<Rightarrow> (string \<times> string) option" where
  "unquote [] = None"
| "unquote (c # cs) =
     (if c = dquote then Some ([], cs)
      else if c = bslash then
        (case cs of
           [] \<Rightarrow> None
         | e # r \<Rightarrow>
             if e = CHR ''u'' then
               (case getu4 (c # cs) of
                  None \<Rightarrow> None
                | Some rr \<Rightarrow>
                    if 0xD800 \<le> rr \<and> rr < 0xE000 then
                      (case getu4 (drop 4 r) of
                         None \<Rightarrow> emit replacement (unquote (drop 4 r))
                       | Some rr1 \<Rightarrow>
                           if rr < 0xDC00 \<and> 0xDC00 \<le> rr1 \<and> rr1 < 0xE000
                           then emit (encode_rune ((rr - 0xD800) * 1024 + (rr1 - 0xDC00) + 0x10000))
                                  (unquote (drop 10 r))
                           else emit replacement (unquote (drop 4 r)))
                    else emit (encode_rune rr) (unquote (drop 4 r)))
             else
               (case unescape e of
                  None \<Rightarrow> None
                | Some b \<Rightarrow> emit [b] (unquote r)))
      else if (of_char c :: nat) < 0x20 then None
      else if (of_char c :: nat) < 0x80 then emit [c] (unquote cs)
      else let n = utf8_size (c # cs) in
        if n = 0 then emit replacement (unquote cs)
        else emit (take n (c # cs)) (unquote (drop (n - 1) cs)))"
  by pat_completeness auto
termination
  by (relation "measure length") auto

definition is_space :: "char \<Rightarrow> bool" where
  "is_space c \<longleftrightarrow> c = CHR '' '' \<or> c = CHR 0x09 \<or> c = CHR 0x0D \<or> c = CHR 0x0A"

definition skip_ws :: "string \<Rightarrow> string" where
  "skip_ws s = dropWhile is_space s"

text \<open>A member's value: a string, or \<^verbatim>\<open>null\<close>, which leaves the element the empty string.\<close>

definition parse_value :: "string \<Rightarrow> (string \<times> string) option" where
  "parse_value s =
     (case s of
        [] \<Rightarrow> None
      | c # r \<Rightarrow>
          if c = dquote then unquote r
          else if take 4 s = ''null'' then Some ([], drop 4 s)
          else None)"

lemma emit_Some:
  "emit bs r = Some (s, rest) \<longleftrightarrow> (\<exists>s'. r = Some (s', rest) \<and> s = bs @ s')"
  by (cases r) (auto simp: emit_def)

lemma unquote_length: "unquote s = Some (x, r) \<Longrightarrow> length r < length s"
proof (induction s arbitrary: x r rule: unquote.induct)
  case 1
  then show ?case by simp
next
  case (2 c cs)
  show ?case
    using "2.prems" "2.IH"
    apply (simp only: unquote.simps)
    apply (auto simp: emit_Some Let_def split: if_splits list.splits option.splits)
             apply fastforce+
    done
qed

lemma skip_ws_length: "length (skip_ws s) \<le> length s"
  by (simp add: skip_ws_def length_dropWhile_le)

lemma parse_value_length: "parse_value s = Some (x, r) \<Longrightarrow> length r < length s"
  by (cases s) (auto simp: parse_value_def dest: unquote_length split: if_splits)

text \<open>
  The members of an object, from the opening quote of a key on: key, colon, value, then
  a comma and the next member, or the closing brace. A key that occurs again replaces
  the earlier value. Whatever follows the closing brace is not read.
\<close>

function parse_members :: "(string \<times> string) list \<Rightarrow> string \<Rightarrow> error + gomap" where
  "parse_members acc s =
     (case s of
        [] \<Rightarrow> Inl JsonError
      | q # r \<Rightarrow>
          if q \<noteq> dquote then Inl JsonError
          else
            (case unquote r of
               None \<Rightarrow> Inl JsonError
             | Some (k, r1) \<Rightarrow>
                 (case skip_ws r1 of
                    [] \<Rightarrow> Inl JsonError
                  | colon # r2 \<Rightarrow>
                      if colon \<noteq> CHR '':'' then Inl JsonError
                      else
                        (case parse_value (skip_ws r2) of
                           None \<Rightarrow> Inl JsonError
                         | Some (v, r3) \<Rightarrow>
                             (case skip_ws r3 of
                                [] \<Rightarrow> Inl JsonError
                              | d # r4 \<Rightarrow>
                                  if d = CHR '','' then
                                    parse_members (AList.update k v acc) (skip_ws r4)
                                  else if d = CHR ''}'' then Inr (MapOf (AList.update k v acc))
                                  else Inl JsonError)))))"
  by pat_completeness auto
termination
proof (relation "measure (\<lambda>(acc, s). length s)", goal_cases)
  case 1
  show ?case by simp
next
  case (2 acc s q r x2 k r1 colon r2 x2a v r3 d r4)
  have "length (skip_ws r4) \<le> length r4"
    by (rule skip_ws_length)
  also have "length r4 < length (skip_ws r3)"
    using 2 by simp
  also have "\<dots> \<le> length r3"
    by (rule skip_ws_length)
  also have "\<dots> < length (skip_ws r2)"
    using 2 by (auto dest: parse_value_length)
  also have "\<dots> \<le> length r2"
    by (rule skip_ws_length)
  also have "\<dots> < length (skip_ws r1)"
    using 2 by simp
  also have "\<dots> \<le> length r1"
    by (rule skip_ws_length)
  also have "\<dots> < length r"
    using 2 by (auto dest: unquote_length)
  also have "\<dots> < length s"
    using 2 by simp
  finally show ?case by simp
qed

text \<open>
  \<^verbatim>\<open>Decoder.Decode\<close> into a map of strings reads one JSON value from the input and
  leaves the rest unread. Input with nothing but white space is \<^verbatim>\<open>io.EOF\<close>; \<^verbatim>\<open>null\<close>
  sets the map to nil; an object with string (or null) members fills the map; every
  other input is an error of the decoder (\<open>JsonError\<close> stands for its syntax error,
  its type error and \<^verbatim>\<open>io.ErrUnexpectedEOF\<close>, which the program never tells apart).
\<close>

definition json_Decode :: "string \<Rightarrow> error + gomap" where
  "json_Decode s =
     (case skip_ws s of
        [] \<Rightarrow> Inl EOF
      | c # r \<Rightarrow>
          if c = CHR ''{'' then
            (case skip_ws r of
               [] \<Rightarrow> Inl JsonError
             | d # r' \<Rightarrow> if d = CHR ''}'' then Inr (MapOf []) else parse_members [] (d # r'))
          else if take 4 (c # r) = ''null'' then Inr NilMap
          else Inl JsonError)"

declare parse_members.simps [simp del]

subsection \<open>The world outside the program\<close>

text \<open>
  \<open>files\<close> is the file system (path to contents); \<open>refused\<close> says which system calls
  the environment refuses on which path; \<open>clock\<close> is what \<^verbatim>\<open>time.Now()\<close> returns, as the
  calendar fields of the local time that \<^verbatim>\<open>Format\<close> prints; \<open>hook_reply n url m\<close> is what
  the \<open>n\<close>-th POST of the run gets back when it sends \<open>m\<close> to \<open>url\<close>: an error of the
  transport or of reading the body, or the body; \<open>posts\<close> are the POSTs issued so far
  and \<open>logged\<close> the lines handed to the logger, each with its format and arguments.
  Opening a file for reading fails exactly when no file is at the path.
\<close>

record gotime =
  year :: nat
  month :: nat
  day :: nat
  hour :: nat

record SlackMessage =
  sm_Channel :: string
  sm_Username :: string
  sm_Text :: string
  sm_IconEmoji :: string

datatype logger = Logger string

record world =
  files :: "string \<rightharpoonup> string"
  refused :: "sysop \<Rightarrow> string \<Rightarrow> bool"
  clock :: gotime
  hook_reply :: "nat \<Rightarrow> string \<Rightarrow> SlackMessage \<Rightarrow> error + string"
  posts :: "(string \<times> SlackMessage) list"
  logged :: "(logger option \<times> string \<times> fmtarg list) list"

text \<open>
  An open file (\<^verbatim>\<open>*os.File\<close>) is its path and its offset: reads and writes happen at
  the offset and advance it.
\<close>

record os_File =
  path :: string
  offset :: nat

definition content :: "world \<Rightarrow> string \<Rightarrow> string" where
  "content w p = (case files w p of None \<Rightarrow> [] | Some c \<Rightarrow> c)"

definition os_Open :: "string \<Rightarrow> world \<Rightarrow> error + os_File" where
  "os_Open p w =
     (case files w p of
        None \<Rightarrow> Inl (NotExist p)
      | Some c \<Rightarrow> Inr \<lparr>path = p, offset = 0\<rparr>)"

text \<open>\<^verbatim>\<open>os.Create\<close>: the file is created, or truncated when it exists, and opened at offset 0.\<close>

definition os_Create :: "string \<Rightarrow> world \<Rightarrow> (error + os_File) \<times> world" where
  "os_Create p w =
     (if refused w SysCreate p then (Inl (Refused SysCreate p), w)
      else (Inr \<lparr>path = p, offset = 0\<rparr>, w\<lparr>files := (files w)(p \<mapsto> [])\<rparr>))"

text \<open>
  \<^verbatim>\<open>os.OpenFile(p, os.O_WRONLY, os.ModeExclusive)\<close>: there is no \<^verbatim>\<open>O_CREATE\<close>, so the file
  must exist (and the permission argument is not used), and no \<^verbatim>\<open>O_TRUNC\<close>, so the
  contents stay as they are.
\<close>

definition os_OpenFile_WRONLY :: "string \<Rightarrow> world \<Rightarrow> error + os_File" where
  "os_OpenFile_WRONLY p w =
     (case files w p of
        None \<Rightarrow> Inl (NotExist p)
      | Some c \<Rightarrow>
          if refused w SysOpenWrite p then Inl (Refused SysOpenWrite p)
          else Inr \<lparr>path = p, offset = 0\<rparr>)"

definition Truncate :: "os_File \<Rightarrow> nat \<Rightarrow> world \<Rightarrow> error option \<times> world" where
  "Truncate f n w =
     (if refused w SysTruncate (path f) then (Some (Refused SysTruncate (path f)), w)
      else
        (let c = content w (path f)
         in (None, w\<lparr>files := (files w)(path f \<mapsto> take n c @ replicate (n - length c) (CHR 0x00))\<rparr>)))"

text \<open>\<open>overwrite c i b\<close>: the contents \<open>c\<close> after the bytes \<open>b\<close> are written at offset \<open>i\<close>.\<close>

definition overwrite :: "string \<Rightarrow> nat \<Rightarrow> string \<Rightarrow> string" where
  "overwrite c i b = take i c @ replicate (i - length c) (CHR 0x00) @ b @ drop (i + length b) c"

definition Write :: "os_File \<Rightarrow> string \<Rightarrow> world \<Rightarrow> (error + os_File) \<times> world" where
  "Write f b w =
     (if refused w SysWrite (path f) then (Inl (Refused SysWrite (path f)), w)
      else
        (Inr (f\<lparr>offset := offset f + length b\<rparr>),
         w\<lparr>files := (files w)(path f \<mapsto> overwrite (content w (path f)) (offset f) b)\<rparr>))"

text \<open>
  \<^verbatim>\<open>json.NewDecoder(f).Decode(&db)\<close> decodes what the file holds from the offset of \<open>f\<close>
  on; \<^verbatim>\<open>json.NewEncoder(f).Encode(db)\<close> writes the JSON of \<open>db\<close> and a newline at the
  offset of \<open>f\<close>.
\<close>

definition Decode :: "os_File \<Rightarrow> world \<Rightarrow> error + gomap" where
  "Decode f w = json_Decode (drop (offset f) (content w (path f)))"

definition Encode :: "os_File \<Rightarrow> gomap \<Rightarrow> world \<Rightarrow> error option \<times> world" where
  "Encode f db w =
     (case Write f (json_Marshal db @ [CHR 0x0A]) w of
        (Inl err, w') \<Rightarrow> (Some err, w')
      | (Inr f', w') \<Rightarrow> (None, w'))"

subsection \<open>The package: constants and types\<close>

definition NotifyAlways :: int where "NotifyAlways = 0"
definition NotifyOnceHour :: int where "NotifyOnceHour = 1"
definition NotifyOnceDay :: int where "NotifyOnceDay = 2"

definition DefaultDatabaseFilePath :: string where "DefaultDatabaseFilePath = ''slacker.json''"
definition DefaultMessageTag :: string where "DefaultMessageTag = ''default_tag''"
definition DefaultUsername :: string where "DefaultUsername = ''Slacker Notifier''"
definition DefaultIconEmoji :: string where "DefaultIconEmoji = '':ghost:''"

record Recipient =
  Channel :: string
  Username :: string

text \<open>
  The struct \<^verbatim>\<open>Slacker\<close>. A nil \<^verbatim>\<open>Log\<close> is \<open>None\<close>. The unexported field
  \<^verbatim>\<open>httpClient\<close>, which \<^verbatim>\<open>setHttpClient\<close> fills with a client of fixed timeouts, only
  configures the transport: what the transport answers is \<open>hook_reply\<close> of the world.
\<close>

record Slacker =
  Hook :: string
  Log :: "logger option"
  IconEmoji :: string
  From :: string
  To :: "Recipient list"
  Frequency :: int
  MessageTag :: string
  DatabaseFilePath :: string

text \<open>
  \<^verbatim>\<open>slacker.Log.Printf(format, args...)\<close>. Every method that logs runs after
  \<open>setDefaults\<close> has installed a logger.
\<close>

definition Printf :: "Slacker \<Rightarrow> string \<Rightarrow> fmtarg list \<Rightarrow> world \<Rightarrow> world" where
  "Printf slacker format args w = w\<lparr>logged := logged w @ [(Log slacker, format, args)]\<rparr>"

subsection \<open>The time bucket: \<^verbatim>\<open>Time.Format\<close>\<close>

text \<open>
  \<^verbatim>\<open>Format\<close> prints the year with at least four digits and month, day and hour with at
  least two, padded with zeros. \<open>formatHour\<close> is \<^verbatim>\<open>t.Format("2006-01-02-15")\<close> and
  \<open>formatDay\<close> is \<^verbatim>\<open>t.Format("2006-01-02")\<close>.
\<close>

fun digits :: "nat \<Rightarrow> string" where
  "digits n =
     (if n < 10 then [char_of (48 + n)] else digits (n div 10) @ [char_of (48 + n mod 10)])"

declare digits.simps [simp del]

definition appendInt :: "nat \<Rightarrow> nat \<Rightarrow> string" where
  "appendInt x width = replicate (width - length (digits x)) (CHR ''0'') @ digits x"

definition formatDay :: "gotime \<Rightarrow> string" where
  "formatDay t = appendInt (year t) 4 @ ''-'' @ appendInt (month t) 2 @ ''-'' @ appendInt (day t) 2"

definition formatHour :: "gotime \<Rightarrow> string" where
  "formatHour t = formatDay t @ ''-'' @ appendInt (hour t) 2"

subsection \<open>The methods of \<^verbatim>\<open>Slacker\<close>\<close>

definition setDefaults :: "Slacker \<Rightarrow> error + Slacker" where
  "setDefaults slacker =
     (if Hook slacker = [] then Inl (New ''Web hook url is not set'')
      else if length (To slacker) = 0 then Inl (New ''Recipients are not set'')
      else
        (let s1 = (if IconEmoji slacker = [] then slacker\<lparr>IconEmoji := DefaultIconEmoji\<rparr> else slacker);
             s2 = (if From s1 = [] then s1\<lparr>From := DefaultUsername\<rparr> else s1);
             s3 = (if Log s2 = None then s2\<lparr>Log := Some (Logger (DefaultUsername @ '' ''))\<rparr> else s2);
             s4 = (if MessageTag s3 = [] then s3\<lparr>MessageTag := DefaultMessageTag\<rparr> else s3);
             s5 = (if DatabaseFilePath s4 = [] then s4\<lparr>DatabaseFilePath := DefaultDatabaseFilePath\<rparr> else s4)
         in Inr s5))"

text \<open>\<open>getHash\<close> reads the clock once; the named result \<open>hash\<close> starts as the empty string.\<close>

definition getHash :: "Slacker \<Rightarrow> string \<Rightarrow> world \<Rightarrow> string" where
  "getHash slacker subject w =
     (let t = clock w in
      if Frequency slacker = NotifyOnceHour then formatHour t @ '':'' @ MessageTag slacker @ '':'' @ subject
      else if Frequency slacker = NotifyOnceDay then formatDay t @ '':'' @ MessageTag slacker @ '':'' @ subject
      else [])"

definition createDb :: "Slacker \<Rightarrow> world \<Rightarrow> (error + os_File) \<times> world" where
  "createDb slacker w =
     (case os_Create (DatabaseFilePath slacker) w of
        (Inl err, w1) \<Rightarrow>
          (Inl (Errorf ''Slacker failed to create database file %s: %s''
                  [Str (DatabaseFilePath slacker), Err err]), w1)
      | (Inr dbFile, w1) \<Rightarrow>
          (case Truncate dbFile 0 w1 of
             (Some err, w2) \<Rightarrow>
               (Inl (Errorf ''Slacker failed to create database file %s: %s''
                       [Str (DatabaseFilePath slacker), Err err]), w2)
           | (None, w2) \<Rightarrow>
               (case Write dbFile ''{}'' w2 of
                  (Inl err, w3) \<Rightarrow>
                    (Inl (Errorf ''Slacker failed to create database file %s: %s''
                            [Str (DatabaseFilePath slacker), Err err]), w3)
                | (Inr dbFile', w3) \<Rightarrow> (Inr dbFile', w3))))"

text \<open>
  \<open>loadDb\<close> decodes from the file it opened, or, when opening failed, from the file
  \<open>createDb\<close> returns, which is the one \<open>createDb\<close> has just written to.
\<close>

definition loadDb :: "Slacker \<Rightarrow> world \<Rightarrow> (error + gomap) \<times> world" where
  "loadDb slacker w =
     (case (case os_Open (DatabaseFilePath slacker) w of
              Inr dbFile \<Rightarrow> (Inr dbFile, w)
            | Inl err \<Rightarrow> createDb slacker w) of
        (Inl err, w1) \<Rightarrow> (Inl (Errorf ''Slacker failed to load database: %s'' [Err err]), w1)
      | (Inr dbFile, w1) \<Rightarrow>
          (case Decode dbFile w1 of
             Inl err \<Rightarrow> (Inl (Errorf ''Slacker failed to load database: %s'' [Err err]), w1)
           | Inr db \<Rightarrow> (Inr db, w1)))"

definition saveDb :: "Slacker \<Rightarrow> gomap \<Rightarrow> world \<Rightarrow> error option \<times> world" where
  "saveDb slacker db w =
     (case os_OpenFile_WRONLY (DatabaseFilePath slacker) w of
        Inl err \<Rightarrow>
          (Some (Errorf ''Slacker failed to save database: Failed to open database file: %s''
                   [Err err]), w)
      | Inr dbFile \<Rightarrow>
          (case Encode dbFile db w of
             (Some err, w1) \<Rightarrow>
               (Some (Errorf ''Slacker failed to save database: Failed to encode json to file: %s''
                        [Err err]), w1)
           | (None, w1) \<Rightarrow> (None, w1)))"

definition inDb :: "Slacker \<Rightarrow> string \<Rightarrow> world \<Rightarrow> bool \<times> world" where
  "inDb slacker hash w =
     (case loadDb slacker w of
        (Inl err, w1) \<Rightarrow> (False, Printf slacker ''Slacker failed to load database: %s'' [Err err] w1)
      | (Inr db, w1) \<Rightarrow> (if entries db hash \<noteq> None then (True, w1) else (False, w1)))"

definition addToDb :: "Slacker \<Rightarrow> string \<Rightarrow> string \<Rightarrow> world \<Rightarrow> (panic + error option) \<times> world" where
  "addToDb slacker hash subject w =
     (case loadDb slacker w of
        (Inl err, w1) \<Rightarrow>
          (Inr (Some (Errorf ''Slacker failed to add %s:%s to database: %s''
                        [Str hash, Str subject, Err err])), w1)
      | (Inr db, w1) \<Rightarrow>
          (case assign db hash subject of
             Inl p \<Rightarrow> (Inl p, w1)
           | Inr db' \<Rightarrow>
               (case saveDb slacker db' w1 of
                  (Some err, w2) \<Rightarrow>
                    (Inr (Some (Errorf ''Slacker failed to add %s to database: %s''
                                  [Str hash, Err err])), w2)
                | (None, w2) \<Rightarrow> (Inr None, w2))))"

definition needToSend :: "Slacker \<Rightarrow> string \<Rightarrow> world \<Rightarrow> bool \<times> world" where
  "needToSend slacker hash w =
     (if Frequency slacker = NotifyAlways then (True, w)
      else
        (case inDb slacker hash w of
           (True, w1) \<Rightarrow> (False, w1)
         | (False, w1) \<Rightarrow> (True, w1)))"

text \<open>
  \<open>send\<close> issues one POST. Marshalling the message cannot fail (a struct of strings);
  the error of \<^verbatim>\<open>Post\<close> and the error of reading the body are both what \<open>hook_reply\<close>
  returns on the left.
\<close>

definition send :: "Slacker \<Rightarrow> SlackMessage \<Rightarrow> world \<Rightarrow> (error + string) \<times> world" where
  "send slacker message w =
     (let w1 = w\<lparr>posts := posts w @ [(Hook slacker, message)]\<rparr>
      in case hook_reply w (length (posts w)) (Hook slacker) message of
           Inl err \<Rightarrow> (Inl err, w1)
         | Inr response \<Rightarrow>
             if response \<noteq> ''ok'' then (Inl (Errorf ''Response from Slack: %s'' [Str response]), w1)
             else (Inr response, w1))"

text \<open>
  The loop of \<open>Send\<close> over the recipients, from the recipients still to serve;
  \<open>slackMessage\<close> is the value of the variable of that name when the loop body sends
  to a recipient.
\<close>

definition slackMessage :: "Slacker \<Rightarrow> string \<Rightarrow> Recipient \<Rightarrow> SlackMessage" where
  "slackMessage slacker message recipient =
     \<lparr>sm_Channel = Channel recipient, sm_Username = From slacker,
      sm_Text = Username recipient @ '' '' @ message, sm_IconEmoji = IconEmoji slacker\<rparr>"

fun Send_loop :: "Slacker \<Rightarrow> string \<Rightarrow> Recipient list \<Rightarrow> world \<Rightarrow> error option \<times> world" where
  "Send_loop slacker message [] w = (None, w)"
| "Send_loop slacker message (recipient # rest) w =
     (case send slacker (slackMessage slacker message recipient) w of
        (Inl err, w1) \<Rightarrow> (Some err, Printf slacker ''Slacker failed to send message: %s'' [Err err] w1)
      | (Inr response, w1) \<Rightarrow>
          Send_loop slacker message rest
            (Printf slacker ''Send message %s: %s %s''
               [Str (MessageTag slacker), Str message, Str response] w1))"

text \<open>
  \<open>Send\<close> has a value receiver: the defaults go into its own copy of the struct. The
  result is \<open>Inr None\<close> for a nil error, \<open>Inr (Some err)\<close> for an error, \<open>Inl p\<close> when the
  call panics.
\<close>

definition Send :: "Slacker \<Rightarrow> string \<Rightarrow> world \<Rightarrow> (panic + error option) \<times> world" where
  "Send slacker0 message w =
     (case setDefaults slacker0 of
        Inl err \<Rightarrow> (Inr (Some (Errorf ''Slacker failed to send message: %s'' [Err err])), w)
      | Inr slacker \<Rightarrow>
          (let hash = getHash slacker message w
           in case needToSend slacker hash w of
                (False, w1) \<Rightarrow>
                  (Inr None, Printf slacker ''Skip message %s: %s'' [Str hash, Str message] w1)
              | (True, w1) \<Rightarrow>
                  (case Send_loop slacker message (To slacker) w1 of
                     (Some err, w2) \<Rightarrow> (Inr (Some err), w2)
                   | (None, w2) \<Rightarrow>
                       (case addToDb slacker hash message w2 of
                          (Inl p, w3) \<Rightarrow> (Inl p, w3)
                        | (Inr (Some err), w3) \<Rightarrow>
                            (Inr (Some err),
                             Printf slacker ''Slacker failed to send message: %s'' [Err err] w3)
                        | (Inr None, w3) \<Rightarrow> (Inr None, w3)))))"

subsection \<open>A concrete run\<close>

text \<open>
  The scenario of the package's description: tag \<open>disk\<close>, once per hour, two recipients,
  a web hook that answers \<open>ok\<close>, no file at the default path, and the clock at
  2024-01-02, 15 h. \<open>ready_slacker\<close> is the configuration after \<open>setDefaults\<close>.
\<close>

definition example_world :: world where
  "example_world =
     \<lparr>files = Map.empty, refused = (\<lambda>call p. False),
      clock = \<lparr>year = 2024, month = 1, day = 2, hour = 15\<rparr>,
      hook_reply = (\<lambda>n url m. Inr ''ok''), posts = [], logged = []\<rparr>"

definition example_slacker :: Slacker where
  "example_slacker =
     \<lparr>Hook = ''https://hooks.slack.com/services/T/B/X'', Log = None, IconEmoji = [], From = [],
      To = [\<lparr>Channel = ''#ops'', Username = ''bot''\<rparr>, \<lparr>Channel = ''#oncall'', Username = ''bot''\<rparr>],
      Frequency = NotifyOnceHour, MessageTag = ''disk'', DatabaseFilePath = []\<rparr>"

definition ready_slacker :: Slacker where
  "ready_slacker =
     example_slacker
       \<lparr>Log := Some (Logger ''Slacker Notifier ''), IconEmoji := '':ghost:'',
        From := ''Slacker Notifier'', DatabaseFilePath := ''slacker.json''\<rparr>"

text \<open>The same world after the message \<open>disk full\<close> has been sent and recorded.\<close>

definition recorded_world :: world where
  \<open>recorded_world =
     example_world\<lparr>files := [''slacker.json'' \<mapsto> ''{"2024-01-02-15:disk:disk full":"disk full"}'' @ [CHR 0x0A]]\<rparr>\<close>

text \<open>The recorded world with a web hook that accepts the first POST only.\<close>

definition flaky_world :: world where
  "flaky_world =
     recorded_world\<lparr>hook_reply := (\<lambda>n url m. if n = 0 then Inr ''ok'' else Inr ''channel_not_found'')\<rparr>"

text \<open>The example world with the backing file as \<open>createDb\<close> writes it.\<close>

definition created_world :: world where
  "created_world = example_world\<lparr>files := [''slacker.json'' \<mapsto> ''{}'']\<rparr>"


text \<open>The example world with a backing file that holds an entry for the empty key.\<close>

definition noted_world :: world where
  \<open>noted_world = example_world\<lparr>files := [''slacker.json'' \<mapsto> ''{"":"disk full"}'' @ [CHR 0x0A]]\<rparr>\<close>

section \<open>Properties\<close>

subsection \<open>The record store\<close>

lemma json_Decode_Nil: "json_Decode [] = Inl EOF"
  by (simp add: json_Decode_def skip_ws_def)

lemma json_Decode_braces: "json_Decode ''{}'' = Inr (MapOf [])"
  by (simp add: json_Decode_def skip_ws_def is_space_def)

lemma createDb_Inr:
  "createDb slacker w = (Inr f, w1) \<Longrightarrow>
     f = \<lparr>path = DatabaseFilePath slacker, offset = 2\<rparr> \<and>
     w1 = w\<lparr>files := (files w)(DatabaseFilePath slacker \<mapsto> ''{}'')\<rparr>"
  by (auto simp: createDb_def os_Create_def Truncate_def Write_def content_def overwrite_def
      split: if_splits)

lemma createDb_frame:
  "createDb slacker w = (r, w1) \<Longrightarrow>
     posts w1 = posts w \<and> logged w1 = logged w \<and> hook_reply w1 = hook_reply w \<and>
     clock w1 = clock w \<and> refused w1 = refused w \<and>
     (\<forall>p. p \<noteq> DatabaseFilePath slacker \<longrightarrow> files w1 p = files w p)"
  by (auto simp: createDb_def os_Create_def Truncate_def Write_def content_def overwrite_def
      split: if_splits)

lemma loadDb_present:
  "files w (DatabaseFilePath slacker) = Some c \<Longrightarrow>
     loadDb slacker w =
       (case json_Decode c of
          Inl err \<Rightarrow> Inl (Errorf ''Slacker failed to load database: %s'' [Err err])
        | Inr db \<Rightarrow> Inr db, w)"
  by (simp add: loadDb_def os_Open_def Decode_def content_def split: sum.splits)

text \<open>
  When no file is at the path, \<open>loadDb\<close> fails: if the file can be created, the decoder
  reads from the offset behind the two bytes just written and finds the end of the file.
\<close>

lemma loadDb_absent:
  assumes "files w (DatabaseFilePath slacker) = None"
  shows "\<exists>err. fst (loadDb slacker w) = Inl (Errorf ''Slacker failed to load database: %s'' [Err err])"
proof (cases "createDb slacker w")
  case (Pair r w1)
  show ?thesis
  proof (cases r)
    case (Inl e)
    with Pair assms show ?thesis
      by (simp add: loadDb_def os_Open_def)
  next
    case (Inr f)
    with Pair have "f = \<lparr>path = DatabaseFilePath slacker, offset = 2\<rparr>"
      and "w1 = w\<lparr>files := (files w)(DatabaseFilePath slacker \<mapsto> ''{}'')\<rparr>"
      using createDb_Inr by blast+
    with Pair Inr assms show ?thesis
      by (simp add: loadDb_def os_Open_def Decode_def content_def json_Decode_Nil)
  qed
qed

lemma loadDb_absent_created:
  assumes "files w (DatabaseFilePath slacker) = None"
    and "\<not> refused w SysCreate (DatabaseFilePath slacker)"
    and "\<not> refused w SysTruncate (DatabaseFilePath slacker)"
    and "\<not> refused w SysWrite (DatabaseFilePath slacker)"
  shows "loadDb slacker w =
           (Inl (Errorf ''Slacker failed to load database: %s'' [Err EOF]),
            w\<lparr>files := (files w)(DatabaseFilePath slacker \<mapsto> ''{}'')\<rparr>)"
  using assms
  by (simp add: loadDb_def os_Open_def createDb_def os_Create_def Truncate_def Write_def
      content_def overwrite_def Decode_def json_Decode_Nil)

lemma loadDb_Inr:
  "loadDb slacker w = (Inr db, w1) \<Longrightarrow>
     w1 = w \<and> (\<exists>c. files w (DatabaseFilePath slacker) = Some c \<and> json_Decode c = Inr db)"
  apply (cases "files w (DatabaseFilePath slacker)")
  using loadDb_absent[of w slacker] apply simp
  apply (auto simp: loadDb_present split: sum.splits)
  done

lemma loadDb_frame:
  "loadDb slacker w = (r, w1) \<Longrightarrow>
     posts w1 = posts w \<and> logged w1 = logged w \<and> hook_reply w1 = hook_reply w \<and>
     clock w1 = clock w \<and> refused w1 = refused w \<and>
     (\<forall>p. p \<noteq> DatabaseFilePath slacker \<longrightarrow> files w1 p = files w p) \<and>
     (files w (DatabaseFilePath slacker) \<noteq> None \<longrightarrow> w1 = w)"
proof (cases "files w (DatabaseFilePath slacker)")
  case None
  assume a: "loadDb slacker w = (r, w1)"
  obtain r' w' where c: "createDb slacker w = (r', w')"
    by (cases "createDb slacker w")
  from a None c have "w1 = w'"
    by (auto simp: loadDb_def os_Open_def split: sum.splits)
  with createDb_frame[OF c] None show ?thesis
    by simp
next
  case (Some c)
  assume "loadDb slacker w = (r, w1)"
  with Some show ?thesis
    by (simp add: loadDb_present)
qed

lemma setDefaults_example: "setDefaults example_slacker = Inr ready_slacker"
  by (simp add: setDefaults_def example_slacker_def ready_slacker_def DefaultIconEmoji_def
      DefaultUsername_def DefaultMessageTag_def DefaultDatabaseFilePath_def NotifyOnceHour_def)

lemma formatHour_example: "formatHour (clock example_world) = ''2024-01-02-15''"
  by (simp add: formatHour_def formatDay_def appendInt_def example_world_def digits.simps char_of_eq_iff)

lemma formatDay_example: "formatDay (clock example_world) = ''2024-01-02''"
  by (simp add: formatDay_def appendInt_def example_world_def digits.simps char_of_eq_iff)

text \<open>
  Claim C1 (the code departs from it). The claim: a load at a path where no file is
  creates the file with an empty JSON object and returns the empty mapping, and the
  next load returns the empty mapping too. In the code the first load does create the
  file with \<^verbatim>\<open>{}\<close>, but it returns an error: it decodes from the file \<open>createDb\<close>
  wrote to, whose offset is behind the two bytes written, so the decoder meets the end
  of the file. The second load returns the empty mapping.
\<close>

theorem loadDb_missing_file_fails:
  "loadDb ready_slacker example_world =
     (Inl (Errorf ''Slacker failed to load database: %s'' [Err EOF]),
      example_world\<lparr>files := [''slacker.json'' \<mapsto> ''{}'']\<rparr>) \<and>
   loadDb ready_slacker (example_world\<lparr>files := [''slacker.json'' \<mapsto> ''{}'']\<rparr>) =
     (Inr (MapOf []), example_world\<lparr>files := [''slacker.json'' \<mapsto> ''{}'']\<rparr>)"
proof -
  have p: "DatabaseFilePath ready_slacker = ''slacker.json''"
    by (simp add: ready_slacker_def)
  have "loadDb ready_slacker example_world =
     (Inl (Errorf ''Slacker failed to load database: %s'' [Err EOF]),
      example_world\<lparr>files := (files example_world)(DatabaseFilePath ready_slacker \<mapsto> ''{}'')\<rparr>)"
    by (rule loadDb_absent_created) (simp_all add: p example_world_def)
  moreover have "files example_world = Map.empty"
    by (simp add: example_world_def)
  moreover have "loadDb ready_slacker (example_world\<lparr>files := [''slacker.json'' \<mapsto> ''{}'']\<rparr>) =
     (Inr (MapOf []), example_world\<lparr>files := [''slacker.json'' \<mapsto> ''{}'']\<rparr>)"
    by (simp add: loadDb_present[where c = "''{}''"] p json_Decode_braces)
  ultimately show ?thesis
    by (simp add: p)
qed

subsection \<open>The fingerprint\<close>

text \<open>
  Claim C3 (amended). Under \<open>NotifyAlways\<close> the fingerprint is empty; under
  \<open>NotifyOnceHour\<close> it is \<open>formatHour now\<close>, a colon, the tag, a colon and the message;
  under \<open>NotifyOnceDay\<close> the same with \<open>formatDay now\<close>; it is a function of policy,
  tag, message and clock; and within one time bucket of the hourly or daily policy, a
  different message under the same tag, or a different tag with the same message,
  gives a different fingerprint.
\<close>

theorem getHash_fingerprint:
  "(Frequency slacker = NotifyAlways \<longrightarrow> getHash slacker message w = []) \<and>
   (Frequency slacker = NotifyOnceHour \<longrightarrow>
      getHash slacker message w = formatHour (clock w) @ '':'' @ MessageTag slacker @ '':'' @ message) \<and>
   (Frequency slacker = NotifyOnceDay \<longrightarrow>
      getHash slacker message w = formatDay (clock w) @ '':'' @ MessageTag slacker @ '':'' @ message) \<and>
   (Frequency slacker' = Frequency slacker \<and> MessageTag slacker' = MessageTag slacker \<and>
    clock w' = clock w \<longrightarrow> getHash slacker' message w' = getHash slacker message w) \<and>
   (Frequency slacker' = Frequency slacker \<and>
    (Frequency slacker = NotifyOnceHour \<and> formatHour (clock w') = formatHour (clock w) \<or>
     Frequency slacker = NotifyOnceDay \<and> formatDay (clock w') = formatDay (clock w)) \<longrightarrow>
      (MessageTag slacker' = MessageTag slacker \<and> message' \<noteq> message \<longrightarrow>
         getHash slacker' message' w' \<noteq> getHash slacker message w) \<and>
      (MessageTag slacker' \<noteq> MessageTag slacker \<and> message' = message \<longrightarrow>
         getHash slacker' message' w' \<noteq> getHash slacker message w))"
proof -
  have det: "Frequency slacker' = Frequency slacker \<and> MessageTag slacker' = MessageTag slacker \<and>
      clock w' = clock w \<longrightarrow> getHash slacker' message w' = getHash slacker message w"
    by (auto simp: getHash_def Let_def)
  have hour: "Frequency slacker = NotifyOnceHour \<longrightarrow>
      getHash slacker message w = formatHour (clock w) @ '':'' @ MessageTag slacker @ '':'' @ message"
    for slacker message w
    by (simp add: getHash_def)
  have day: "Frequency slacker = NotifyOnceDay \<longrightarrow>
      getHash slacker message w = formatDay (clock w) @ '':'' @ MessageTag slacker @ '':'' @ message"
    for slacker message w
    by (simp add: getHash_def NotifyOnceHour_def NotifyOnceDay_def)
  have always: "Frequency slacker = NotifyAlways \<longrightarrow> getHash slacker message w = []"
    by (simp add: getHash_def NotifyAlways_def NotifyOnceHour_def NotifyOnceDay_def)
  have inj: "Frequency slacker' = Frequency slacker \<and>
    (Frequency slacker = NotifyOnceHour \<and> formatHour (clock w') = formatHour (clock w) \<or>
     Frequency slacker = NotifyOnceDay \<and> formatDay (clock w') = formatDay (clock w)) \<longrightarrow>
      (MessageTag slacker' = MessageTag slacker \<and> message' \<noteq> message \<longrightarrow>
         getHash slacker' message' w' \<noteq> getHash slacker message w) \<and>
      (MessageTag slacker' \<noteq> MessageTag slacker \<and> message' = message \<longrightarrow>
         getHash slacker' message' w' \<noteq> getHash slacker message w)"
    using hour[of slacker message w] hour[of slacker' message' w']
      day[of slacker message w] day[of slacker' message' w']
    by auto
  from always hour day det inj show ?thesis
    by blast
qed

text \<open>
  The claim as written also promises a different fingerprint when tag and message both
  change. The fingerprint only concatenates them around a colon, so the tag \<open>a:b\<close> with
  the message \<open>c\<close> and the tag \<open>a\<close> with the message \<open>b:c\<close> share one fingerprint.
\<close>

theorem getHash_fingerprint_counterexample:
  "getHash (ready_slacker\<lparr>MessageTag := ''a:b''\<rparr>) ''c'' example_world =
   getHash (ready_slacker\<lparr>MessageTag := ''a''\<rparr>) ''b:c'' example_world \<and>
   ''a:b'' \<noteq> ''a'' \<and> ''c'' \<noteq> ''b:c'' \<and> Frequency ready_slacker = NotifyOnceHour"
  by (simp add: getHash_def ready_slacker_def example_slacker_def NotifyOnceHour_def NotifyOnceDay_def)

theorem getHash_fingerprint_witness:
  "getHash (ready_slacker\<lparr>Frequency := NotifyAlways\<rparr>) ''disk full'' example_world = [] \<and>
   getHash ready_slacker ''disk full'' example_world = ''2024-01-02-15:disk:disk full'' \<and>
   getHash (ready_slacker\<lparr>Frequency := NotifyOnceDay\<rparr>) ''disk full'' example_world = ''2024-01-02:disk:disk full'' \<and>
   getHash ready_slacker ''disk full'' (example_world\<lparr>posts := [], logged := []\<rparr>) = getHash ready_slacker ''disk full'' example_world \<and>
   getHash ready_slacker ''disk low'' example_world \<noteq> getHash ready_slacker ''disk full'' example_world \<and>
   getHash (ready_slacker\<lparr>MessageTag := ''cpu''\<rparr>) ''disk full'' example_world \<noteq> getHash ready_slacker ''disk full'' example_world"
proof -
  have f: "Frequency ready_slacker = NotifyOnceHour" "MessageTag ready_slacker = ''disk''"
    by (simp_all add: ready_slacker_def example_slacker_def)
  have "getHash (ready_slacker\<lparr>Frequency := NotifyAlways\<rparr>) ''disk full'' example_world = []"
    using getHash_fingerprint[of "ready_slacker\<lparr>Frequency := NotifyAlways\<rparr>" "''disk full''" example_world]
    by simp
  moreover have "getHash ready_slacker ''disk full'' example_world = ''2024-01-02-15:disk:disk full''"
    using getHash_fingerprint[of ready_slacker "''disk full''" example_world] f
    by (simp add: formatHour_example)
  moreover have "getHash (ready_slacker\<lparr>Frequency := NotifyOnceDay\<rparr>) ''disk full'' example_world = ''2024-01-02:disk:disk full''"
    using getHash_fingerprint[of "ready_slacker\<lparr>Frequency := NotifyOnceDay\<rparr>" "''disk full''" example_world] f
    by (simp add: formatDay_example)
  moreover have "getHash ready_slacker ''disk full'' (example_world\<lparr>posts := [], logged := []\<rparr>) = getHash ready_slacker ''disk full'' example_world"
    using getHash_fingerprint[of ready_slacker "''disk full''" example_world ready_slacker "example_world\<lparr>posts := [], logged := []\<rparr>"]
    by simp
  moreover have "getHash ready_slacker ''disk low'' example_world \<noteq> getHash ready_slacker ''disk full'' example_world"
  proof -
    have "''disk low'' \<noteq> ''disk full''"
      by simp
    with f show ?thesis
      using getHash_fingerprint[of ready_slacker "''disk full''" example_world ready_slacker example_world "''disk low''"]
      by blast
  qed
  moreover have "getHash (ready_slacker\<lparr>MessageTag := ''cpu''\<rparr>) ''disk full'' example_world \<noteq> getHash ready_slacker ''disk full'' example_world"
  proof -
    have "MessageTag (ready_slacker\<lparr>MessageTag := ''cpu''\<rparr>) \<noteq> MessageTag ready_slacker"
      "Frequency (ready_slacker\<lparr>MessageTag := ''cpu''\<rparr>) = Frequency ready_slacker"
      by (simp_all add: f)
    with f show ?thesis
      using getHash_fingerprint[of ready_slacker "''disk full''" example_world "ready_slacker\<lparr>MessageTag := ''cpu''\<rparr>" example_world "''disk full''"]
      by blast
  qed
  ultimately show ?thesis
    by blast
qed

subsection \<open>The dedup decision\<close>

lemma Decode_recorded:
  \<open>json_Decode (''{"2024-01-02-15:disk:disk full":"disk full"}'' @ [CHR 0x0A]) =
     Inr (MapOf [(''2024-01-02-15:disk:disk full'', ''disk full'')])\<close>
  by code_simp

lemma inDb_Inr:
  "loadDb slacker w = (Inr db, w1) \<Longrightarrow> inDb slacker hash w = (entries db hash \<noteq> None, w)"
  by (frule loadDb_Inr) (simp add: inDb_def)

lemma inDb_Inl:
  "loadDb slacker w = (Inl err, w1) \<Longrightarrow>
     inDb slacker hash w = (False, Printf slacker ''Slacker failed to load database: %s'' [Err err] w1)"
  by (simp add: inDb_def)

lemma needToSend_eq:
  "needToSend slacker hash w =
     (if Frequency slacker = NotifyAlways then (True, w)
      else (\<not> fst (inDb slacker hash w), snd (inDb slacker hash w)))"
  by (auto simp: needToSend_def split: prod.splits bool.splits)

lemma needToSend_False:
  assumes "fst (needToSend slacker hash w) = False"
  shows "Frequency slacker \<noteq> NotifyAlways \<and> needToSend slacker hash w = (False, w) \<and>
         (\<exists>db. loadDb slacker w = (Inr db, w) \<and> entries db hash \<noteq> None)"
proof (cases "loadDb slacker w")
  case (Pair r w1)
  show ?thesis
  proof (cases r)
    case (Inl err)
    with Pair assms show ?thesis
      by (auto simp: needToSend_eq inDb_Inl split: if_splits)
  next
    case (Inr db)
    with Pair have "w1 = w"
      using loadDb_Inr by blast
    with Pair Inr assms show ?thesis
      by (auto simp: needToSend_eq inDb_Inr split: if_splits)
  qed
qed

lemma getHash_example:
  "clock w = clock example_world \<Longrightarrow> getHash ready_slacker m w = ''2024-01-02-15:disk:'' @ m"
  by (simp add: getHash_def formatHour_example ready_slacker_def example_slacker_def)

lemma loadDb_recorded:
  "loadDb ready_slacker recorded_world =
     (Inr (MapOf [(''2024-01-02-15:disk:disk full'', ''disk full'')]), recorded_world)"
proof -
  have "files recorded_world (DatabaseFilePath ready_slacker) =
      Some (''{'' @ [dquote] @ ''2024-01-02-15:disk:disk full'' @ [dquote] @ '':'' @ [dquote] @ ''disk full'' @ [dquote] @ ''}'' @ [CHR 0x0A])"
    by (simp add: recorded_world_def ready_slacker_def dquote_def)
  then show ?thesis
    using Decode_recorded by (simp add: loadDb_present dquote_def)
qed

text \<open>
  Claim C4. Under \<open>NotifyAlways\<close> the decision is true at once and the world is left as
  it is: the store is not consulted. Under any other policy the decision loads the
  Record and is true exactly when the fingerprint has no entry in it (and true when the
  load fails); it does not change the Record: a backing file that exists is left as it
  is, and a Record that could be loaded before the decision is loaded unchanged after it.
\<close>

theorem needToSend_decision:
  "(Frequency slacker = NotifyAlways \<longrightarrow> needToSend slacker hash w = (True, w)) \<and>
   (Frequency slacker \<noteq> NotifyAlways \<longrightarrow>
      fst (needToSend slacker hash w) =
        (case fst (loadDb slacker w) of Inl err \<Rightarrow> True | Inr db \<Rightarrow> entries db hash = None) \<and>
      (\<forall>c. files w (DatabaseFilePath slacker) = Some c \<longrightarrow>
         files (snd (needToSend slacker hash w)) = files w) \<and>
      (\<forall>db. fst (loadDb slacker w) = Inr db \<longrightarrow>
         fst (loadDb slacker (snd (needToSend slacker hash w))) = Inr db))"
proof (cases "loadDb slacker w")
  case (Pair r w1)
  show ?thesis
  proof (cases r)
    case (Inl err)
    with Pair have "files w (DatabaseFilePath slacker) = Some c \<Longrightarrow> w1 = w" for c
      using loadDb_frame by blast
    with Pair Inl show ?thesis
      by (auto simp: needToSend_eq inDb_Inl Printf_def)
  next
    case (Inr db)
    with Pair have "w1 = w"
      using loadDb_Inr by blast
    with Pair Inr show ?thesis
      by (simp add: needToSend_eq inDb_Inr)
  qed
qed

theorem needToSend_decision_witness:
  "needToSend (ready_slacker\<lparr>Frequency := NotifyAlways\<rparr>) ''2024-01-02-15:disk:disk full'' recorded_world
     = (True, recorded_world) \<and>
   fst (needToSend ready_slacker ''2024-01-02-15:disk:disk full'' recorded_world) = False \<and>
   fst (needToSend ready_slacker ''2024-01-02-15:disk:disk low'' recorded_world) = True \<and>
   files (snd (needToSend ready_slacker ''2024-01-02-15:disk:disk low'' recorded_world)) = files recorded_world \<and>
   fst (loadDb ready_slacker (snd (needToSend ready_slacker ''2024-01-02-15:disk:disk low'' recorded_world)))
     = Inr (MapOf [(''2024-01-02-15:disk:disk full'', ''disk full'')])"
proof -
  have f: "Frequency ready_slacker \<noteq> NotifyAlways"
    by (simp add: ready_slacker_def example_slacker_def NotifyAlways_def NotifyOnceHour_def)
  have p: "\<exists>c. files recorded_world (DatabaseFilePath ready_slacker) = Some c"
    by (simp add: recorded_world_def ready_slacker_def)
  show ?thesis
    using needToSend_decision[of "ready_slacker\<lparr>Frequency := NotifyAlways\<rparr>"
        "''2024-01-02-15:disk:disk full''" recorded_world]
      needToSend_decision[of ready_slacker "''2024-01-02-15:disk:disk full''" recorded_world]
      needToSend_decision[of ready_slacker "''2024-01-02-15:disk:disk low''" recorded_world]
      f p
    by (auto simp: loadDb_recorded)
qed

subsection \<open>Sending\<close>

text \<open>
  Claim C7. With an empty web hook URL, or with no recipient, \<open>Send\<close> returns the
  configuration error and the world is unchanged: no file is touched, no POST issued,
  nothing logged. \<open>setDefaults\<close> never fills in these two fields: when it succeeds, they
  are the caller's own, non-empty values.
\<close>

theorem Send_config_invalid:
  "(Hook slacker = [] \<longrightarrow>
      Send slacker message w =
        (Inr (Some (Errorf ''Slacker failed to send message: %s'' [Err (New ''Web hook url is not set'')])), w)) \<and>
   (Hook slacker \<noteq> [] \<and> To slacker = [] \<longrightarrow>
      Send slacker message w =
        (Inr (Some (Errorf ''Slacker failed to send message: %s'' [Err (New ''Recipients are not set'')])), w)) \<and>
   (\<forall>slacker'. setDefaults slacker = Inr slacker' \<longrightarrow>
      Hook slacker' = Hook slacker \<and> To slacker' = To slacker \<and> Hook slacker \<noteq> [] \<and> To slacker \<noteq> [])"
  by (auto simp: Send_def setDefaults_def Let_def split: if_splits)

theorem Send_config_invalid_witness:
  "Send (example_slacker\<lparr>Hook := []\<rparr>) ''disk full'' example_world =
     (Inr (Some (Errorf ''Slacker failed to send message: %s'' [Err (New ''Web hook url is not set'')])),
      example_world) \<and>
   Send (example_slacker\<lparr>To := []\<rparr>) ''disk full'' example_world =
     (Inr (Some (Errorf ''Slacker failed to send message: %s'' [Err (New ''Recipients are not set'')])),
      example_world) \<and>
   Hook ready_slacker = Hook example_slacker \<and> To ready_slacker = To example_slacker"
  using Send_config_invalid[of "example_slacker\<lparr>Hook := []\<rparr>" "''disk full''" example_world]
    Send_config_invalid[of "example_slacker\<lparr>To := []\<rparr>" "''disk full''" example_world]
    Send_config_invalid[of example_slacker] setDefaults_example
  by (simp add: example_slacker_def)

text \<open>
  Claim C8. When the dedup decision is false, \<open>Send\<close> returns nil, issues no POST and
  leaves the files as they are; the world changes by the one log line only.
\<close>

theorem Send_skip:
  assumes "setDefaults slacker0 = Inr slacker"
    and "fst (needToSend slacker (getHash slacker message w) w) = False"
  shows "Send slacker0 message w =
           (Inr None,
            Printf slacker ''Skip message %s: %s'' [Str (getHash slacker message w), Str message] w) \<and>
         posts (snd (Send slacker0 message w)) = posts w \<and>
         files (snd (Send slacker0 message w)) = files w"
proof -
  from assms(2) have "needToSend slacker (getHash slacker message w) w = (False, w)"
    using needToSend_False by blast
  with assms(1) show ?thesis
    by (simp add: Send_def Printf_def)
qed

theorem Send_skip_witness:
  "fst (Send example_slacker ''disk full'' recorded_world) = Inr None \<and>
   posts (snd (Send example_slacker ''disk full'' recorded_world)) = [] \<and>
   files (snd (Send example_slacker ''disk full'' recorded_world)) = files recorded_world"
proof -
  have h: "getHash ready_slacker ''disk full'' recorded_world = ''2024-01-02-15:disk:disk full''"
    by (simp add: getHash_example recorded_world_def)
  have "Frequency ready_slacker \<noteq> NotifyAlways"
    by (simp add: ready_slacker_def example_slacker_def NotifyAlways_def NotifyOnceHour_def)
  then have "fst (needToSend ready_slacker (getHash ready_slacker ''disk full'' recorded_world) recorded_world) = False"
    by (simp add: needToSend_eq inDb_Inr[OF loadDb_recorded] h)
  from Send_skip[OF setDefaults_example this]
  have "fst (Send example_slacker ''disk full'' recorded_world) = Inr None"
    and "posts (snd (Send example_slacker ''disk full'' recorded_world)) = posts recorded_world"
    and "files (snd (Send example_slacker ''disk full'' recorded_world)) = files recorded_world"
    by (simp_all add: Printf_def)
  moreover have "posts recorded_world = []"
    by (simp add: recorded_world_def example_world_def)
  ultimately show ?thesis
    by simp
qed

subsection \<open>Delivery\<close>

text \<open>The error \<open>send\<close> returns for a reply that is not the body \<open>ok\<close>.\<close>

abbreviation delivery_error :: "error + string \<Rightarrow> error" where
  "delivery_error r \<equiv>
     (case r of Inl err \<Rightarrow> err | Inr response \<Rightarrow> Errorf ''Response from Slack: %s'' [Str response])"

lemma send_ok:
  "hook_reply w (length (posts w)) (Hook slacker) m = Inr ''ok'' \<Longrightarrow>
     send slacker m w = (Inr ''ok'', w\<lparr>posts := posts w @ [(Hook slacker, m)]\<rparr>)"
  by (simp add: send_def)

lemma send_failed:
  "hook_reply w (length (posts w)) (Hook slacker) m = r \<Longrightarrow> r \<noteq> Inr ''ok'' \<Longrightarrow>
     send slacker m w = (Inl (delivery_error r), w\<lparr>posts := posts w @ [(Hook slacker, m)]\<rparr>)"
  by (cases r) (auto simp: send_def)

lemma Send_loop_failure:
  assumes "i < length rs"
    and "\<forall>j<i. hook_reply w (length (posts w) + j) (Hook slacker) (slackMessage slacker message (rs ! j)) = Inr ''ok''"
    and "hook_reply w (length (posts w) + i) (Hook slacker) (slackMessage slacker message (rs ! i)) = r"
    and "r \<noteq> Inr ''ok''"
  shows "fst (Send_loop slacker message rs w) = Some (delivery_error r) \<and>
         posts (snd (Send_loop slacker message rs w)) =
           posts w @ map (\<lambda>x. (Hook slacker, slackMessage slacker message x)) (take (Suc i) rs) \<and>
         files (snd (Send_loop slacker message rs w)) = files w"
  using assms
proof (induction rs arbitrary: i w)
  case Nil
  then show ?case by simp
next
  case (Cons x rs)
  show ?case
  proof (cases i)
    case 0
    with Cons.prems show ?thesis
      by (simp add: send_failed Printf_def)
  next
    case (Suc k)
    let ?w1 = "Printf slacker ''Send message %s: %s %s''
                 [Str (MessageTag slacker), Str message, Str ''ok'']
                 (w\<lparr>posts := posts w @ [(Hook slacker, slackMessage slacker message x)]\<rparr>)"
    from Cons.prems Suc
    have first: "hook_reply w (length (posts w)) (Hook slacker) (slackMessage slacker message x) = Inr ''ok''"
      by force
    have step: "Send_loop slacker message (x # rs) w = Send_loop slacker message rs ?w1"
      by (simp add: send_ok[OF first])
    have p: "length (posts ?w1) = Suc (length (posts w))" "hook_reply ?w1 = hook_reply w"
      by (simp_all add: Printf_def)
    have "k < length rs"
      using Cons.prems Suc by simp
    moreover have "\<forall>j<k. hook_reply ?w1 (length (posts ?w1) + j) (Hook slacker) (slackMessage slacker message (rs ! j)) = Inr ''ok''"
    proof (intro allI impI)
      fix j assume "j < k"
      then have "Suc j < i" using Suc by simp
      with Cons.prems(2) have "hook_reply w (length (posts w) + Suc j) (Hook slacker) (slackMessage slacker message ((x # rs) ! Suc j)) = Inr ''ok''"
        by blast
      then show "hook_reply ?w1 (length (posts ?w1) + j) (Hook slacker) (slackMessage slacker message (rs ! j)) = Inr ''ok''"
        by (simp add: p)
    qed
    moreover have "hook_reply ?w1 (length (posts ?w1) + k) (Hook slacker) (slackMessage slacker message (rs ! k)) = r"
      using Cons.prems(3) Suc by (simp add: p)
    ultimately have "fst (Send_loop slacker message rs ?w1) = Some (delivery_error r) \<and>
         posts (snd (Send_loop slacker message rs ?w1)) =
           posts ?w1 @ map (\<lambda>x. (Hook slacker, slackMessage slacker message x)) (take (Suc k) rs) \<and>
         files (snd (Send_loop slacker message rs ?w1)) = files ?w1"
      using Cons.IH[of k ?w1] Cons.prems(4) by blast
    then show ?thesis
      unfolding step using Suc by (simp add: Printf_def)
  qed
qed

lemma inDb_frame:
  "posts (snd (inDb slacker hash w)) = posts w \<and> hook_reply (snd (inDb slacker hash w)) = hook_reply w"
  by (cases "loadDb slacker w") (auto simp: inDb_def Printf_def dest: loadDb_frame split: sum.splits)

lemma needToSend_frame:
  "posts (snd (needToSend slacker hash w)) = posts w \<and>
   hook_reply (snd (needToSend slacker hash w)) = hook_reply w"
  by (simp add: needToSend_eq inDb_frame)

lemma createDb_files:
  "files (snd (createDb slacker w)) = files w \<or>
   files (snd (createDb slacker w)) = (files w)(DatabaseFilePath slacker \<mapsto> []) \<or>
   files (snd (createDb slacker w)) = (files w)(DatabaseFilePath slacker \<mapsto> ''{}'')"
  by (auto simp: createDb_def os_Create_def Truncate_def Write_def content_def overwrite_def)

lemma loadDb_files:
  "files (snd (loadDb slacker w)) = files w \<or>
   files w (DatabaseFilePath slacker) = None \<and>
     (files (snd (loadDb slacker w)) = (files w)(DatabaseFilePath slacker \<mapsto> []) \<or>
      files (snd (loadDb slacker w)) = (files w)(DatabaseFilePath slacker \<mapsto> ''{}''))"
proof (cases "files w (DatabaseFilePath slacker)")
  case None
  then have "snd (loadDb slacker w) = snd (createDb slacker w)"
    by (auto simp: loadDb_def os_Open_def split: prod.splits sum.splits)
  with None createDb_files[of slacker w] show ?thesis
    by auto
next
  case (Some c)
  then show ?thesis
    by (simp add: loadDb_present)
qed

lemma needToSend_files:
  "files (snd (needToSend slacker hash w)) = files w \<or>
   files w (DatabaseFilePath slacker) = None \<and>
     (files (snd (needToSend slacker hash w)) = (files w)(DatabaseFilePath slacker \<mapsto> []) \<or>
      files (snd (needToSend slacker hash w)) = (files w)(DatabaseFilePath slacker \<mapsto> ''{}''))"
proof -
  have "files (snd (inDb slacker hash w)) = files (snd (loadDb slacker w))"
    by (auto simp: inDb_def Printf_def split: prod.splits sum.splits)
  with loadDb_files[of slacker w] show ?thesis
    by (auto simp: needToSend_eq)
qed

lemma loadDb_flaky:
  "loadDb ready_slacker flaky_world =
     (Inr (MapOf [(''2024-01-02-15:disk:disk full'', ''disk full'')]), flaky_world)"
proof -
  have "files flaky_world (DatabaseFilePath ready_slacker) =
      Some (''{'' @ [dquote] @ ''2024-01-02-15:disk:disk full'' @ [dquote] @ '':'' @ [dquote] @ ''disk full'' @ [dquote] @ ''}'' @ [CHR 0x0A])"
    by (simp add: flaky_world_def recorded_world_def ready_slacker_def dquote_def)
  then show ?thesis
    using Decode_recorded by (simp add: loadDb_present dquote_def)
qed











text \<open>
  Claim C6. When the send goes ahead and the recipient at index \<open>i\<close> is the first whose
  delivery fails (a transport error, or a body other than \<open>ok\<close>), \<open>Send\<close> returns that
  failure, the POSTs issued are those for the recipients up to and including \<open>i\<close>, in
  order, and the files are as the dedup check left them: either untouched, or, when
  there was no backing file, with the backing file created empty or as \<^verbatim>\<open>{}\<close>. No
  fingerprint is recorded.
\<close>

theorem Send_delivery_failure:
  assumes "setDefaults slacker0 = Inr slacker"
    and "fst (needToSend slacker (getHash slacker message w) w) = True"
    and "i < length (To slacker)"
    and "\<forall>j<i. hook_reply w (length (posts w) + j) (Hook slacker)
                  (slackMessage slacker message (To slacker ! j)) = Inr ''ok''"
    and "hook_reply w (length (posts w) + i) (Hook slacker)
           (slackMessage slacker message (To slacker ! i)) = r"
    and "r \<noteq> Inr ''ok''"
  shows "fst (Send slacker0 message w) =
           Inr (Some (case r of Inl err \<Rightarrow> err
                      | Inr response \<Rightarrow> Errorf ''Response from Slack: %s'' [Str response])) \<and>
         posts (snd (Send slacker0 message w)) =
           posts w @ map (\<lambda>x. (Hook slacker, slackMessage slacker message x)) (take (Suc i) (To slacker)) \<and>
         files (snd (Send slacker0 message w)) =
           files (snd (needToSend slacker (getHash slacker message w) w)) \<and>
         (files (snd (Send slacker0 message w)) = files w \<or>
          files w (DatabaseFilePath slacker) = None \<and>
            (files (snd (Send slacker0 message w)) = (files w)(DatabaseFilePath slacker \<mapsto> []) \<or>
             files (snd (Send slacker0 message w)) = (files w)(DatabaseFilePath slacker \<mapsto> ''{}'')))"
proof -
  let ?hash = "getHash slacker message w"
  obtain w1 where n: "needToSend slacker ?hash w = (True, w1)"
    using assms(2) by (cases "needToSend slacker ?hash w") auto
  have fr: "posts w1 = posts w" "hook_reply w1 = hook_reply w"
    using needToSend_frame[of slacker ?hash w] n by simp_all
  have loop: "fst (Send_loop slacker message (To slacker) w1) = Some (delivery_error r) \<and>
         posts (snd (Send_loop slacker message (To slacker) w1)) =
           posts w1 @ map (\<lambda>x. (Hook slacker, slackMessage slacker message x)) (take (Suc i) (To slacker)) \<and>
         files (snd (Send_loop slacker message (To slacker) w1)) = files w1"
    by (rule Send_loop_failure) (use assms fr in simp_all)
  obtain w2 where l: "Send_loop slacker message (To slacker) w1 = (Some (delivery_error r), w2)"
    using loop by (cases "Send_loop slacker message (To slacker) w1") auto
  have s: "Send slacker0 message w = (Inr (Some (delivery_error r)), w2)"
    using assms(1) n l by (simp add: Send_def)
  have "files w2 = files w1" "posts w2 = posts w @ map (\<lambda>x. (Hook slacker, slackMessage slacker message x)) (take (Suc i) (To slacker))"
    using loop l fr by simp_all
  moreover have "w1 = snd (needToSend slacker ?hash w)"
    using n by simp
  ultimately show ?thesis
    using needToSend_files[of slacker ?hash w] s by simp
qed

theorem Send_delivery_failure_witness:
  "fst (Send example_slacker ''disk low'' flaky_world) =
     Inr (Some (Errorf ''Response from Slack: %s'' [Str ''channel_not_found''])) \<and>
   posts (snd (Send example_slacker ''disk low'' flaky_world)) =
     [(Hook ready_slacker, slackMessage ready_slacker ''disk low'' \<lparr>Channel = ''#ops'', Username = ''bot''\<rparr>),
      (Hook ready_slacker, slackMessage ready_slacker ''disk low'' \<lparr>Channel = ''#oncall'', Username = ''bot''\<rparr>)] \<and>
   files (snd (Send example_slacker ''disk low'' flaky_world)) = files flaky_world"
proof -
  have h: "getHash ready_slacker ''disk low'' flaky_world = ''2024-01-02-15:disk:disk low''"
    by (simp add: getHash_example flaky_world_def recorded_world_def)
  have f: "Frequency ready_slacker \<noteq> NotifyAlways"
    by (simp add: ready_slacker_def example_slacker_def NotifyAlways_def NotifyOnceHour_def)
  have n: "fst (needToSend ready_slacker (getHash ready_slacker ''disk low'' flaky_world) flaky_world) = True"
    using f by (simp add: needToSend_eq inDb_Inr[OF loadDb_flaky] h)
  have to: "To ready_slacker = [\<lparr>Channel = ''#ops'', Username = ''bot''\<rparr>, \<lparr>Channel = ''#oncall'', Username = ''bot''\<rparr>]"
    by (simp add: ready_slacker_def example_slacker_def)
  have p: "posts flaky_world = []"
    by (simp add: flaky_world_def recorded_world_def example_world_def)
  have r: "hook_reply flaky_world = (\<lambda>n url m. if n = 0 then Inr ''ok'' else Inr ''channel_not_found'')"
    by (simp add: flaky_world_def)
  have i: "(1::nat) < length (To ready_slacker)"
    by (simp add: to)
  have ok: "\<forall>j<1::nat. hook_reply flaky_world (length (posts flaky_world) + j) (Hook ready_slacker)
                  (slackMessage ready_slacker ''disk low'' (To ready_slacker ! j)) = Inr ''ok''"
    by (simp add: p r)
  have bad: "hook_reply flaky_world (length (posts flaky_world) + 1) (Hook ready_slacker)
           (slackMessage ready_slacker ''disk low'' (To ready_slacker ! 1)) = Inr ''channel_not_found''"
    by (simp add: p r)
  have ne: "(Inr ''channel_not_found'' :: error + string) \<noteq> Inr ''ok''"
    by simp
  have e: "files flaky_world (DatabaseFilePath ready_slacker) \<noteq> None"
    by (simp add: flaky_world_def recorded_world_def ready_slacker_def)
  from Send_delivery_failure[OF setDefaults_example n i ok bad ne] e
  show ?thesis
    by (auto simp: to p)
qed

subsection \<open>The JSON codec: what is written is read back\<close>

declare unquote.simps [simp del]

lemma hexval_hex: "n < 16 \<Longrightarrow> hexval (hex n) = Some n"
proof -
  have "\<forall>n \<in> set [0..<16]. hexval (hex n) = Some n"
    by code_simp
  moreover assume "n < 16"
  ultimately show ?thesis
    by (simp add: unquote.simps)
qed

lemma utf8_size_ascii: "(of_char c :: nat) < 0x80 \<Longrightarrow> utf8_size (c # cs) = 1"
  by (simp add: utf8_size_def)

lemma byte_in_length: "byte_in s i lo hi \<Longrightarrow> i < length s"
  by (simp add: byte_in_def)

lemma utf8_size_le_length: "utf8_size s \<le> length s"
  by (cases s) (auto simp: utf8_size_def Let_def Suc_le_eq dest!: byte_in_length)

lemma utf8_size_high: "\<not> (of_char c :: nat) < 0x80 \<Longrightarrow> utf8_size (c # cs) \<noteq> Suc 0"
  by (auto simp: utf8_size_def Let_def)

lemma byte_in_prefix: "i < n \<Longrightarrow> n \<le> length s \<Longrightarrow> byte_in (take n s @ t) i lo hi = byte_in s i lo hi"
  by (auto simp: byte_in_def nth_append)

lemma utf8_size_prefix:
  assumes "utf8_size s = n" and "0 < n"
  shows "utf8_size (take n s @ t) = n"
proof -
  have len: "n \<le> length s"
    using assms(1) utf8_size_le_length[of s] by simp
  have ne: "s \<noteq> []"
    using assms by (auto simp: utf8_size_def)
  have hd: "hd (take n s @ t) = hd s" "take n s @ t \<noteq> []"
    using assms(2) ne by (cases n; cases s; simp)+
  have pre: "i < n \<Longrightarrow> byte_in (take n s @ t) i lo hi = byte_in s i lo hi" for i lo hi
    using byte_in_prefix len by blast
  let ?x = "of_char (hd s) :: nat"
  consider (a) "?x < 0x80" | (b) "0xC2 \<le> ?x" "?x < 0xE0" | (c) "0xE0 \<le> ?x" "?x < 0xF0"
    | (d) "0xF0 \<le> ?x" "?x < 0xF5" | (e) "0x80 \<le> ?x" "?x < 0xC2" | (f) "0xF5 \<le> ?x"
    by linarith
  then show ?thesis
  proof cases
    case a
    with assms ne have "n = 1" by (simp add: utf8_size_def)
    with a hd show ?thesis by (simp add: utf8_size_def)
  next
    case b
    with assms ne have "n = 2" by (simp add: utf8_size_def split: if_splits)
    with assms b ne hd show ?thesis
      using pre[of 1] by (simp add: utf8_size_def split: if_splits)
  next
    case c
    with assms ne have n: "n = 3" by (simp add: utf8_size_def Let_def split: if_splits)
    have "byte_in (take n s @ t) 1 lo hi = byte_in s 1 lo hi" "byte_in (take n s @ t) 2 lo hi = byte_in s 2 lo hi" for lo hi
      using pre n by simp_all
    with assms c ne hd show ?thesis
      by (simp add: utf8_size_def Let_def)
  next
    case d
    with assms ne have n: "n = 4" by (simp add: utf8_size_def Let_def split: if_splits)
    have "byte_in (take n s @ t) 1 lo hi = byte_in s 1 lo hi" "byte_in (take n s @ t) 2 lo hi = byte_in s 2 lo hi"
      "byte_in (take n s @ t) 3 lo hi = byte_in s 3 lo hi" for lo hi
      using pre n by simp_all
    with assms d ne hd show ?thesis
      by (simp add: utf8_size_def Let_def)
  next
    case e
    with assms ne show ?thesis by (simp add: utf8_size_def)
  next
    case f
    with assms ne show ?thesis by (simp add: utf8_size_def)
  qed
qed

lemma emit_simp [simp]: "emit bs (Some (s, r)) = Some (bs @ s, r)" "emit bs None = None"
  by (simp_all add: emit_def)

lemma bslash_neq_dquote [simp]: "bslash \<noteq> dquote" "dquote \<noteq> bslash"
  by (simp_all add: bslash_def dquote_def)

lemma hexval_0: "hexval (CHR ''0'') = Some 0"
  by (simp add: hexval_def)

lemma char_of_nat_eq: "(of_char c :: nat) = n \<Longrightarrow> c = char_of n"
  by auto

lemma char_consts:
  "char_of (0x0A::nat) = CHR 0x0A" "char_of (0x0D::nat) = CHR 0x0D" "char_of (0x09::nat) = CHR 0x09"
  "char_of (0x08::nat) = CHR 0x08" "char_of (0x0C::nat) = CHR 0x0C"
  by (simp_all add: char_of_eq_iff)

lemma unquote_escape_ascii:
  assumes "(of_char c :: nat) < 0x80"
  shows "unquote (escape_ascii c @ t) = emit [c] (unquote t)"
proof -
  let ?x = "of_char c :: nat"
  consider (q) "c = dquote \<or> c = bslash"
    | (b) "c \<noteq> dquote" "c \<noteq> bslash" "?x = 0x08"
    | (f) "c \<noteq> dquote" "c \<noteq> bslash" "?x = 0x0C"
    | (n) "c \<noteq> dquote" "c \<noteq> bslash" "?x = 0x0A"
    | (r) "c \<noteq> dquote" "c \<noteq> bslash" "?x = 0x0D"
    | (t) "c \<noteq> dquote" "c \<noteq> bslash" "?x = 0x09"
    | (u) "c \<noteq> dquote" "c \<noteq> bslash" "?x \<noteq> 0x08" "?x \<noteq> 0x0C" "?x \<noteq> 0x0A"
          "?x \<noteq> 0x0D" "?x \<noteq> 0x09"
          "?x < 0x20 \<or> c = CHR ''<'' \<or> c = CHR ''>'' \<or> c = CHR ''&''"
    | (p) "c \<noteq> dquote" "c \<noteq> bslash" "\<not> ?x < 0x20" "c \<noteq> CHR ''<''" "c \<noteq> CHR ''>''" "c \<noteq> CHR ''&''"
    by blast
  then show ?thesis
  proof cases
    case q
    then show ?thesis
      by (auto simp: escape_ascii_def unescape_def unquote.simps dquote_def bslash_def)
  next
    case b
    then have "c = CHR 0x08"
      using char_of_nat_eq char_consts by metis
    with b show ?thesis
      by (simp add: escape_ascii_def unescape_def unquote.simps dquote_def bslash_def)
  next
    case f
    then have "c = CHR 0x0C"
      using char_of_nat_eq char_consts by metis
    with f show ?thesis
      by (simp add: escape_ascii_def unescape_def unquote.simps dquote_def bslash_def)
  next
    case n
    then have "c = CHR 0x0A"
      using char_of_nat_eq char_consts by metis
    with n show ?thesis
      by (simp add: escape_ascii_def unescape_def unquote.simps dquote_def bslash_def)
  next
    case r
    then have "c = CHR 0x0D"
      using char_of_nat_eq char_consts by metis
    with r show ?thesis
      by (simp add: escape_ascii_def unescape_def unquote.simps dquote_def bslash_def)
  next
    case t
    then have "c = CHR 0x09"
      using char_of_nat_eq char_consts by metis
    with t show ?thesis
      by (simp add: escape_ascii_def unescape_def unquote.simps dquote_def bslash_def)
  next
    case u
    have x: "?x div 16 < 16" "?x mod 16 < 16"
      using assms by simp_all
    have g: "getu4 (bslash # CHR ''u'' # CHR ''0'' # CHR ''0'' # hex (?x div 16) # hex (?x mod 16) # t) = Some ?x"
      by (simp add: getu4_def hexval_0 hexval_hex[OF x(1)] hexval_hex[OF x(2)])
    have e: "escape_ascii c = [bslash, CHR ''u'', CHR ''0'', CHR ''0'', hex (?x div 16), hex (?x mod 16)]"
      using u by (auto simp: escape_ascii_def Let_def)
    have r: "encode_rune ?x = [c]"
      using assms by (simp add: encode_rune_def)
    show ?thesis
      using assms by (simp add: e g r unquote.simps)
  next
    case p
    with assms show ?thesis
      by (simp add: escape_ascii_def unquote.simps)
  qed
qed

lemma unquote_ufffd: "unquote (bslash # CHR ''u'' # CHR ''f'' # CHR ''f'' # CHR ''f'' # CHR ''d'' # t) = emit replacement (unquote t)"
proof -
  have "getu4 (bslash # CHR ''u'' # CHR ''f'' # CHR ''f'' # CHR ''f'' # CHR ''d'' # t) = Some 0xFFFD"
    by (simp add: getu4_def hexval_def)
  moreover have "encode_rune 0xFFFD = replacement"
    by (simp add: encode_rune_def replacement_def char_of_eq_iff)
  ultimately show ?thesis
    by (simp add: unquote.simps)
qed

lemma unquote_u2028:
  "unquote (bslash # CHR ''u'' # CHR ''2'' # CHR ''0'' # CHR ''2'' # CHR ''8'' # t) = emit [CHR 0xE2, CHR 0x80, CHR 0xA8] (unquote t)"
proof -
  have "getu4 (bslash # CHR ''u'' # CHR ''2'' # CHR ''0'' # CHR ''2'' # CHR ''8'' # t) = Some 0x2028"
    by (simp add: getu4_def hexval_def)
  moreover have "encode_rune 0x2028 = [CHR 0xE2, CHR 0x80, CHR 0xA8]"
    by (simp add: encode_rune_def char_of_eq_iff)
  ultimately show ?thesis
    by (simp add: unquote.simps)
qed

lemma unquote_u2029:
  "unquote (bslash # CHR ''u'' # CHR ''2'' # CHR ''0'' # CHR ''2'' # CHR ''9'' # t) = emit [CHR 0xE2, CHR 0x80, CHR 0xA9] (unquote t)"
proof -
  have "getu4 (bslash # CHR ''u'' # CHR ''2'' # CHR ''0'' # CHR ''2'' # CHR ''9'' # t) = Some 0x2029"
    by (simp add: getu4_def hexval_def)
  moreover have "encode_rune 0x2029 = [CHR 0xE2, CHR 0x80, CHR 0xA9]"
    by (simp add: encode_rune_def char_of_eq_iff)
  ultimately show ?thesis
    by (simp add: unquote.simps)
qed

lemma unquote_verbatim:
  assumes "\<not> (of_char c :: nat) < 0x80" and "utf8_size (c # cs) = n" and "0 < n"
  shows "unquote (take n (c # cs) @ t) = emit (take n (c # cs)) (unquote t)"
proof -
  have n2: "2 \<le> n"
    using assms utf8_size_high[of c cs] by simp
  have len: "n \<le> length (c # cs)"
    using assms(2) utf8_size_le_length[of "c # cs"] by simp
  have t: "take n (c # cs) @ t = c # (take (n - 1) cs @ t)"
    using n2 by (cases n) simp_all
  have sz: "utf8_size (c # (take (n - 1) cs @ t)) = n"
    using utf8_size_prefix[OF assms(2,3), of t] t by simp
  have c: "c \<noteq> dquote" "c \<noteq> bslash"
    using assms(1) by (auto simp: dquote_def bslash_def)
  have l1: "length (take (n - 1) cs) = n - 1"
    using len n2 by simp
  have "unquote (c # (take (n - 1) cs @ t)) =
      emit (take n (c # (take (n - 1) cs @ t))) (unquote (drop (n - 1) (take (n - 1) cs @ t)))"
    using assms(1,3) c sz by (simp add: Let_def unquote.simps)
  moreover have "take n (c # (take (n - 1) cs @ t)) = take n (c # cs)"
    using n2 l1 by (cases n) simp_all
  moreover have "drop (n - 1) (take (n - 1) cs @ t) = t"
    using l1 by simp
  ultimately show ?thesis
    using t by simp
qed

lemma utf8_size_line_sep:
  "take 3 (c # cs) = [CHR 0xE2, CHR 0x80, b] \<Longrightarrow> b = CHR 0xA8 \<or> b = CHR 0xA9 \<Longrightarrow>
     utf8_size (c # cs) = 3"
  by (cases cs; cases "tl cs") (auto simp: utf8_size_def byte_in_def)

lemma unquote_quote_chars:
  "unquote (quote_chars s @ dquote # rest) = Some (utf8_coerce s, rest)"
proof (induction s rule: quote_chars.induct)
  case 1
  show ?case by (simp add: unquote.simps)
next
  case (2 c cs)
  show ?case
  proof (cases "(of_char c :: nat) < 0x80")
    case True
    then show ?thesis
      using "2.IH"(1) by (simp add: unquote_escape_ascii utf8_size_ascii)
  next
    case False
    let ?n = "utf8_size (c # cs)"
    show ?thesis
    proof (cases "?n = 0")
      case True
      with False "2.IH"(2) show ?thesis
        by (simp add: unquote_ufffd)
    next
      case n: False
      show ?thesis
      proof (cases "take 3 (c # cs) = [CHR 0xE2, CHR 0x80, CHR 0xA8]")
        case True
        then have "?n = 3"
          using utf8_size_line_sep by blast
        with False True "2.IH"(3)[OF False refl n True] show ?thesis
          by (simp add: unquote_u2028)
      next
        case a: False
        show ?thesis
        proof (cases "take 3 (c # cs) = [CHR 0xE2, CHR 0x80, CHR 0xA9]")
          case True
          then have "?n = 3"
            using utf8_size_line_sep by blast
          with False a True "2.IH"(4)[OF False refl n a True] show ?thesis
            by (simp add: unquote_u2029)
        next
          case b: False
          have q: "quote_chars (c # cs) = take ?n (c # cs) @ quote_chars (drop (?n - 1) cs)"
            using False n a b by (auto simp: Let_def)
          have u: "utf8_coerce (c # cs) = take ?n (c # cs) @ utf8_coerce (drop (?n - 1) cs)"
            using n by (simp add: Let_def)
          have "unquote (take ?n (c # cs) @ quote_chars (drop (?n - 1) cs) @ dquote # rest) =
              emit (take ?n (c # cs)) (unquote (quote_chars (drop (?n - 1) cs) @ dquote # rest))"
            using unquote_verbatim[OF False refl] n by simp
          also have "\<dots> = Some (take ?n (c # cs) @ utf8_coerce (drop (?n - 1) cs), rest)"
            using "2.IH"(5)[OF False refl n a b] by simp
          finally show ?thesis
            unfolding q u by simp
        qed
      qed
    qed
  qed
qed

lemma skip_ws_nonspace: "\<not> is_space c \<Longrightarrow> skip_ws (c # s) = c # s"
  by (simp add: skip_ws_def)

lemma not_space [simp]:
  "\<not> is_space dquote" "\<not> is_space (CHR '':'')" "\<not> is_space (CHR '','')" "\<not> is_space (CHR ''}'')"
  by (simp_all add: is_space_def dquote_def)

lemma parse_value_quote: "parse_value (quote s @ rest) = Some (utf8_coerce s, rest)"
  by (simp add: parse_value_def quote_def unquote_quote_chars)

lemma members_hd: "kvs \<noteq> [] \<Longrightarrow> \<exists>r. members kvs @ t = dquote # r"
  by (induction kvs rule: members.induct) (simp_all add: quote_def)

lemma skip_ws_quote: "skip_ws (quote v @ r) = quote v @ r"
  by (simp add: quote_def skip_ws_nonspace)

lemma parse_member_comma:
  "parse_members acc (quote k @ CHR '':'' # quote v @ CHR '','' # t) =
     parse_members (AList.update (utf8_coerce k) (utf8_coerce v) acc) (skip_ws t)"
proof -
  have "quote k @ CHR '':'' # quote v @ CHR '','' # t =
      dquote # (quote_chars k @ dquote # (CHR '':'' # quote v @ CHR '','' # t))"
    by (simp add: quote_def)
  then show ?thesis
    by (subst parse_members.simps)
      (simp add: unquote_quote_chars skip_ws_nonspace skip_ws_quote parse_value_quote)
qed

lemma parse_member_last:
  "parse_members acc (quote k @ CHR '':'' # quote v @ CHR ''}'' # t) =
     Inr (MapOf (AList.update (utf8_coerce k) (utf8_coerce v) acc))"
proof -
  have "quote k @ CHR '':'' # quote v @ CHR ''}'' # t =
      dquote # (quote_chars k @ dquote # (CHR '':'' # quote v @ CHR ''}'' # t))"
    by (simp add: quote_def)
  then show ?thesis
    by (subst parse_members.simps)
      (simp add: unquote_quote_chars skip_ws_nonspace skip_ws_quote parse_value_quote)
qed

text \<open>What a Record that was saved is when it is loaded again.\<close>

abbreviation reloaded :: "(string \<times> string) list \<Rightarrow> (string \<times> string) list \<Rightarrow> (string \<times> string) list" where
  "reloaded kvs acc \<equiv> fold (\<lambda>(k, v). AList.update (utf8_coerce k) (utf8_coerce v)) kvs acc"

lemma skip_ws_members: "kvs \<noteq> [] \<Longrightarrow> skip_ws (members kvs @ t) = members kvs @ t"
  using members_hd[of kvs t] by (auto simp: skip_ws_nonspace)

lemma parse_members_members:
  "kvs \<noteq> [] \<Longrightarrow>
     parse_members acc (members kvs @ CHR ''}'' # tail) = Inr (MapOf (reloaded kvs acc))"
proof (induction kvs arbitrary: acc rule: members.induct)
  case 1
  then show ?case by simp
next
  case (2 k v)
  show ?case
    using parse_member_last[of acc k v tail] by simp
next
  case (3 k v kv kvs)
  have "parse_members acc (members ((k, v) # kv # kvs) @ CHR ''}'' # tail) =
      parse_members (AList.update (utf8_coerce k) (utf8_coerce v) acc)
        (skip_ws (members (kv # kvs) @ CHR ''}'' # tail))"
    using parse_member_comma[of acc k v "members (kv # kvs) @ CHR ''}'' # tail"] by simp
  then show ?case
    using "3.IH"[of "AList.update (utf8_coerce k) (utf8_coerce v) acc"]
    by (simp add: skip_ws_members)
qed

lemma json_Decode_Marshal:
  "json_Decode (json_Marshal (MapOf al) @ tail) =
     Inr (MapOf (reloaded (sort_key fst (AList.clearjunk al)) []))"
proof (cases "sort_key fst (AList.clearjunk al) = []")
  case True
  then show ?thesis
    by (simp add: json_Decode_def json_Marshal_def skip_ws_def is_space_def)
next
  case False
  let ?kvs = "sort_key fst (AList.clearjunk al)"
  obtain r where r: "members ?kvs @ CHR ''}'' # tail = dquote # r"
    using members_hd[OF False] by blast
  have "json_Decode (json_Marshal (MapOf al) @ tail) = parse_members [] (members ?kvs @ CHR ''}'' # tail)"
    using r by (simp add: json_Decode_def json_Marshal_def skip_ws_def is_space_def dquote_def)
  then show ?thesis
    using parse_members_members[OF False] by simp
qed

lemma json_Decode_Marshal_nil: "json_Decode (json_Marshal NilMap @ tail) = Inr NilMap"
  by (simp add: json_Decode_def json_Marshal_def skip_ws_def is_space_def)

lemma utf8_coerce_valid: "valid_utf8 s \<Longrightarrow> utf8_coerce s = s"
proof (induction s rule: valid_utf8.induct)
  case 1
  show ?case by simp
next
  case (2 c cs)
  let ?n = "utf8_size (c # cs)"
  from "2.prems" have n: "?n \<noteq> 0" and v: "valid_utf8 (drop (?n - 1) cs)"
    by (simp_all add: Let_def)
  have "utf8_coerce (drop (?n - 1) cs) = drop (?n - 1) cs"
    using "2.IH"[OF refl v] .
  moreover have "take ?n (c # cs) = c # take (?n - 1) cs"
    using n by (cases ?n) simp_all
  ultimately show ?case
    using n by (simp add: Let_def)
qed

lemma utf8_coerce_Nil_iff: "utf8_coerce s = [] \<longleftrightarrow> s = []"
proof (cases s)
  case Nil
  then show ?thesis by simp
next
  case (Cons c cs)
  have "take (utf8_size (c # cs)) (c # cs) \<noteq> []" if "utf8_size (c # cs) \<noteq> 0"
    using that by (cases "utf8_size (c # cs)") simp_all
  with Cons show ?thesis
    by (simp add: Let_def replacement_def)
qed

lemma map_of_reloaded:
  "map_of (reloaded kvs acc) =
     map_of acc ++ map_of (rev (map (\<lambda>(k, v). (utf8_coerce k, utf8_coerce v)) kvs))"
proof (induction kvs arbitrary: acc)
  case Nil
  show ?case by simp
next
  case (Cons kv kvs)
  obtain k v where kv: "kv = (k, v)"
    by (cases kv)
  let ?M = "map_of (rev (map (\<lambda>(k, v). (utf8_coerce k, utf8_coerce v)) kvs))"
  have assoc: "(m(a \<mapsto> b)) ++ n = m ++ ([a \<mapsto> b] ++ n)" for m n :: "string \<rightharpoonup> string" and a b
    by (rule ext) (simp add: map_add_def split: option.splits)
  have "map_of (reloaded (kv # kvs) acc) =
      map_of (reloaded kvs (AList.update (utf8_coerce k) (utf8_coerce v) acc))"
    by (simp add: kv)
  also have "\<dots> = map_of (AList.update (utf8_coerce k) (utf8_coerce v) acc) ++ ?M"
    by (rule Cons.IH)
  also have "\<dots> = (map_of acc)(utf8_coerce k \<mapsto> utf8_coerce v) ++ ?M"
    by (simp only: update_conv')
  also have "\<dots> = map_of acc ++ ([utf8_coerce k \<mapsto> utf8_coerce v] ++ ?M)"
    by (rule assoc[of "map_of acc" "utf8_coerce k" "utf8_coerce v" ?M])
  also have "[utf8_coerce k \<mapsto> utf8_coerce v] ++ ?M =
      map_of (rev (map (\<lambda>(k, v). (utf8_coerce k, utf8_coerce v)) (kv # kvs)))"
    by (simp add: kv)
  finally show ?case .
qed

lemma map_of_unique:
  assumes "(k, v) \<in> set xs" and "\<And>v'. (k, v') \<in> set xs \<Longrightarrow> v' = v"
  shows "map_of xs k = Some v"
proof -
  obtain u where u: "map_of xs k = Some u"
    using assms(1) weak_map_of_SomeI by fastforce
  then have "(k, u) \<in> set xs"
    by (rule map_of_SomeD)
  then have "u = v"
    by (rule assms(2))
  with u show ?thesis
    by simp
qed

lemma distinct_fst_insort_key:
  "distinct (map fst (insort_key fst x xs)) \<longleftrightarrow> fst x \<notin> fst ` set xs \<and> distinct (map fst xs)"
  by (induction xs) (auto simp: set_insort_key)

lemma distinct_fst_sort_key: "distinct (map fst (sort_key fst xs)) \<longleftrightarrow> distinct (map fst xs)"
  by (induction xs) (simp_all add: distinct_fst_insort_key)

lemma map_of_sort_key:
  "distinct (map fst xs) \<Longrightarrow> map_of (sort_key fst xs) = map_of xs"
  by (simp add: map_of_inject_set distinct_fst_sort_key)

lemma map_of_rev_distinct:
  "distinct (map fst xs) \<Longrightarrow> map_of (rev xs) = map_of xs"
  by (simp add: map_of_inject_set rev_map[symmetric])

lemma map_of_saved: "map_of (sort_key fst (AList.clearjunk al)) = map_of al"
  by (simp add: map_of_sort_key map_of_clearjunk)

lemma reloaded_valid:
  assumes "\<And>k v. map_of al k = Some v \<Longrightarrow> valid_utf8 k \<and> valid_utf8 v"
  shows "map_of (reloaded (sort_key fst (AList.clearjunk al)) []) = map_of al"
proof -
  let ?kvs = "sort_key fst (AList.clearjunk al)"
  have d: "distinct (map fst ?kvs)"
    by (simp add: distinct_fst_sort_key)
  have "(k, v) \<in> set ?kvs \<Longrightarrow> utf8_coerce k = k \<and> utf8_coerce v = v" for k v
    using assms[of k v] d map_of_saved[of al] utf8_coerce_valid
    by (metis map_of_is_SomeI)
  then have "map (\<lambda>(k, v). (utf8_coerce k, utf8_coerce v)) ?kvs = ?kvs"
    by (intro map_idI) auto
  then show ?thesis
    using d by (simp add: map_of_reloaded map_of_rev_distinct map_of_saved del: set_sort)
qed

lemma reloaded_empty_key:
  assumes "map_of al [] = Some v"
  shows "map_of (reloaded (sort_key fst (AList.clearjunk al)) []) [] = Some (utf8_coerce v)"
proof -
  let ?kvs = "sort_key fst (AList.clearjunk al)"
  let ?m = "map (\<lambda>(k, v). (utf8_coerce k, utf8_coerce v)) ?kvs"
  have d: "distinct (map fst ?kvs)"
    by (simp add: distinct_fst_sort_key)
  have in_kvs: "([], v) \<in> set ?kvs"
    using assms map_of_saved[of al] by (metis map_of_SomeD)
  then have "([], utf8_coerce v) \<in> set (rev ?m)"
    by force
  moreover have "v' = utf8_coerce v" if "([], v') \<in> set (rev ?m)" for v'
  proof -
    from that obtain k u where ku: "(k, u) \<in> set ?kvs" "utf8_coerce k = []" "v' = utf8_coerce u"
      by auto
    then have "k = []"
      by (simp add: utf8_coerce_Nil_iff)
    with ku(1) in_kvs d have "u = v"
      by (meson eq_key_imp_eq_value)
    with ku show ?thesis by simp
  qed
  ultimately have "map_of (rev ?m) [] = Some (utf8_coerce v)"
    by (rule map_of_unique)
  then show ?thesis
    by (simp add: map_of_reloaded)
qed

subsection \<open>Saving and loading again\<close>

lemma overwrite_0: "overwrite c 0 b = b @ drop (length b) c"
  by (simp add: overwrite_def)

lemma saveDb_present:
  assumes "files w (DatabaseFilePath slacker) = Some c"
    and "\<not> refused w SysOpenWrite (DatabaseFilePath slacker)"
    and "\<not> refused w SysWrite (DatabaseFilePath slacker)"
  shows "saveDb slacker db w =
           (None, w\<lparr>files := (files w)(DatabaseFilePath slacker \<mapsto>
                     json_Marshal db @ CHR 0x0A # drop (Suc (length (json_Marshal db))) c)\<rparr>)"
  using assms
  by (simp add: saveDb_def os_OpenFile_WRONLY_def Encode_def Write_def content_def overwrite_0)

lemma saveDb_None:
  assumes "saveDb slacker db w = (None, w2)"
  shows "\<exists>c. files w (DatabaseFilePath slacker) = Some c \<and>
           w2 = w\<lparr>files := (files w)(DatabaseFilePath slacker \<mapsto>
                  json_Marshal db @ CHR 0x0A # drop (Suc (length (json_Marshal db))) c)\<rparr>"
  using assms
  by (auto simp: saveDb_def os_OpenFile_WRONLY_def Encode_def Write_def content_def overwrite_0
      split: option.splits if_splits)

text \<open>What a map that was written by \<open>json_Marshal\<close> is when it is decoded again.\<close>

fun reload :: "gomap \<Rightarrow> gomap" where
  "reload NilMap = NilMap"
| "reload (MapOf al) = MapOf (reloaded (sort_key fst (AList.clearjunk al)) [])"

lemma json_Decode_saved: "json_Decode (json_Marshal db @ CHR 0x0A # tail) = Inr (reload db)"
  using json_Decode_Marshal[of _ "CHR 0x0A # tail"] json_Decode_Marshal_nil[of "CHR 0x0A # tail"]
  by (cases db) simp_all

lemma loadDb_after_saveDb:
  assumes "saveDb slacker db w = (None, w2)"
  shows "loadDb slacker w2 = (Inr (reload db), w2)"
proof -
  obtain c where "w2 = w\<lparr>files := (files w)(DatabaseFilePath slacker \<mapsto>
                  json_Marshal db @ CHR 0x0A # drop (Suc (length (json_Marshal db))) c)\<rparr>"
    using saveDb_None[OF assms] by blast
  then have "files w2 (DatabaseFilePath slacker) =
      Some (json_Marshal db @ CHR 0x0A # drop (Suc (length (json_Marshal db))) c)"
    by simp
  then show ?thesis
    by (simp add: loadDb_present json_Decode_saved)
qed

lemma entries_reload_valid:
  assumes "\<forall>k v. entries db k = Some v \<longrightarrow> valid_utf8 k \<and> valid_utf8 v"
  shows "entries (reload db) = entries db"
proof (cases db)
  case NilMap
  then show ?thesis by simp
next
  case (MapOf al)
  with assms have "\<And>k v. map_of al k = Some v \<Longrightarrow> valid_utf8 k \<and> valid_utf8 v"
    by simp
  then show ?thesis
    using MapOf by (simp add: reloaded_valid)
qed

lemma utf8_coerce_ascii: "\<forall>c \<in> set s. (of_char c :: nat) < 0x80 \<Longrightarrow> utf8_coerce s = s"
  by (induction s) (simp_all add: utf8_size_ascii)

lemma reload_example:
  "reload (MapOf [(''k'', [CHR 0xFF])]) = MapOf [(''k'', [CHR 0xEF, CHR 0xBF, CHR 0xBD])]"
proof -
  have "utf8_coerce ''k'' = ''k''"
    by (rule utf8_coerce_ascii) simp
  moreover have "utf8_coerce [CHR 0xFF] = [CHR 0xEF, CHR 0xBF, CHR 0xBD]"
    by (simp add: utf8_size_def replacement_def)
  ultimately show ?thesis
    by simp
qed

text \<open>
  Claim C2 (amended). For every Record whose keys and values are valid UTF-8, and
  every prior contents of an existing backing file that can be opened and written,
  \<open>saveDb\<close> succeeds, the file then begins with the JSON object of the whole Record
  and a newline, and the next \<open>loadDb\<close> returns a map with exactly the entries of the
  saved Record (a nil map for a nil map).
\<close>

theorem saveDb_then_loadDb:
  assumes "files w (DatabaseFilePath slacker) = Some old"
    and "\<not> refused w SysOpenWrite (DatabaseFilePath slacker)"
    and "\<not> refused w SysWrite (DatabaseFilePath slacker)"
    and "\<forall>k v. entries db k = Some v \<longrightarrow> valid_utf8 k \<and> valid_utf8 v"
  shows "\<exists>w' tail db'.
           saveDb slacker db w = (None, w') \<and>
           files w' (DatabaseFilePath slacker) = Some (json_Marshal db @ CHR 0x0A # tail) \<and>
           loadDb slacker w' = (Inr db', w') \<and>
           entries db' = entries db \<and> (db' = NilMap) = (db = NilMap)"
proof -
  let ?w' = "w\<lparr>files := (files w)(DatabaseFilePath slacker \<mapsto>
                     json_Marshal db @ CHR 0x0A # drop (Suc (length (json_Marshal db))) old)\<rparr>"
  have s: "saveDb slacker db w = (None, ?w')"
    using assms(1-3) by (rule saveDb_present)
  have l: "loadDb slacker ?w' = (Inr (reload db), ?w')"
    using s by (rule loadDb_after_saveDb)
  have n: "(reload db = NilMap) = (db = NilMap)"
    by (cases db) simp_all
  have f: "files ?w' (DatabaseFilePath slacker) =
      Some (json_Marshal db @ CHR 0x0A # drop (Suc (length (json_Marshal db))) old)"
    by simp
  from s f l entries_reload_valid[OF assms(4)] n show ?thesis
    by blast
qed

text \<open>
  The claim as written speaks of every Record. A string that is not valid UTF-8 is
  written with each offending byte replaced by the escape of U+FFFD, so what is loaded
  is not what was saved.
\<close>

theorem saveDb_then_loadDb_counterexample:
  "fst (saveDb ready_slacker (MapOf [(''k'', [CHR 0xFF])]) created_world) = None \<and>
   fst (loadDb ready_slacker (snd (saveDb ready_slacker (MapOf [(''k'', [CHR 0xFF])]) created_world))) =
     Inr (MapOf [(''k'', [CHR 0xEF, CHR 0xBF, CHR 0xBD])]) \<and>
   entries (MapOf [(''k'', [CHR 0xEF, CHR 0xBF, CHR 0xBD])]) ''k'' \<noteq> entries (MapOf [(''k'', [CHR 0xFF])]) ''k''"
proof -
  have "files created_world (DatabaseFilePath ready_slacker) = Some ''{}''"
    "\<not> refused created_world SysOpenWrite (DatabaseFilePath ready_slacker)"
    "\<not> refused created_world SysWrite (DatabaseFilePath ready_slacker)"
    by (simp_all add: created_world_def example_world_def ready_slacker_def)
  then obtain w' where s: "saveDb ready_slacker (MapOf [(''k'', [CHR 0xFF])]) created_world = (None, w')"
    using saveDb_present by blast
  then have "loadDb ready_slacker w' = (Inr (reload (MapOf [(''k'', [CHR 0xFF])])), w')"
    by (rule loadDb_after_saveDb)
  then have "loadDb ready_slacker w' = (Inr (MapOf [(''k'', [CHR 0xEF, CHR 0xBF, CHR 0xBD])]), w')"
    by (simp only: reload_example)
  with s show ?thesis
    by simp
qed

theorem saveDb_then_loadDb_witness:
  "\<exists>w' tail db'.
     saveDb ready_slacker (MapOf [(''a'', ''b'')]) recorded_world = (None, w') \<and>
     files w' (DatabaseFilePath ready_slacker) =
       Some (json_Marshal (MapOf [(''a'', ''b'')]) @ CHR 0x0A # tail) \<and>
     loadDb ready_slacker w' = (Inr db', w') \<and>
     entries db' = entries (MapOf [(''a'', ''b'')]) \<and>
     (db' = NilMap) = (MapOf [(''a'', ''b'')] = NilMap)"
proof -
  have p: "DatabaseFilePath ready_slacker = ''slacker.json''"
    by (simp add: ready_slacker_def)
  have f: "files recorded_world (DatabaseFilePath ready_slacker) =
      Some (the (files recorded_world ''slacker.json''))"
    by (simp add: recorded_world_def p)
  have r: "\<not> refused recorded_world SysOpenWrite (DatabaseFilePath ready_slacker)"
    "\<not> refused recorded_world SysWrite (DatabaseFilePath ready_slacker)"
    by (simp_all add: recorded_world_def example_world_def)
  have v: "\<forall>k v. entries (MapOf [(''a'', ''b'')]) k = Some v \<longrightarrow> valid_utf8 k \<and> valid_utf8 v"
    by (auto simp: utf8_size_def split: if_splits)
  show ?thesis
    by (rule saveDb_then_loadDb[OF f r v])
qed

text \<open>
  \<open>saveDb\<close> opens the file without truncating it: where the prior contents are longer
  than what is written, their tail stays in the file. The decoder stops at the end of
  the first JSON value and does not read it.
\<close>

lemma saveDb_keeps_tail:
  \<open>files (snd (saveDb ready_slacker (MapOf []) recorded_world)) ''slacker.json'' =
     Some (''{}'' @ [CHR 0x0A] @ ''024-01-02-15:disk:disk full":"disk full"}'' @ [CHR 0x0A])\<close>
proof -
  have \<open>files recorded_world (DatabaseFilePath ready_slacker) =
      Some (''{"2024-01-02-15:disk:disk full":"disk full"}'' @ [CHR 0x0A])\<close>
    "\<not> refused recorded_world SysOpenWrite (DatabaseFilePath ready_slacker)"
    "\<not> refused recorded_world SysWrite (DatabaseFilePath ready_slacker)"
    by (simp_all add: recorded_world_def example_world_def ready_slacker_def)
  from saveDb_present[OF this, of "MapOf []"] show ?thesis
    by (simp add: json_Marshal_def ready_slacker_def)
qed

subsection \<open>Policies that leave the fingerprint empty\<close>


lemma setDefaults_Frequency: "setDefaults slacker0 = Inr slacker \<Longrightarrow> Frequency slacker = Frequency slacker0"
  by (auto simp: setDefaults_def Let_def split: if_splits)

lemma getHash_other:
  "Frequency slacker \<noteq> NotifyOnceHour \<Longrightarrow> Frequency slacker \<noteq> NotifyOnceDay \<Longrightarrow>
     getHash slacker message w = []"
  by (simp add: getHash_def)

lemma addToDb_None:
  assumes "addToDb slacker hash subject w = (Inr None, w3)"
  shows "\<exists>al. loadDb slacker w = (Inr (MapOf al), w) \<and>
           saveDb slacker (MapOf (AList.update hash subject al)) w = (None, w3)"
proof (cases "loadDb slacker w")
  case (Pair r w1)
  show ?thesis
  proof (cases r)
    case (Inl e)
    with Pair assms show ?thesis
      by (simp add: addToDb_def)
  next
    case (Inr db)
    with Pair have w1: "w1 = w"
      using loadDb_Inr by blast
    show ?thesis
    proof (cases db)
      case NilMap
      with Pair Inr assms show ?thesis
        by (simp add: addToDb_def)
    next
      case (MapOf al)
      with Pair Inr assms w1 show ?thesis
        by (auto simp: addToDb_def split: prod.splits option.splits)
    qed
  qed
qed

lemma loadDb_after_record:
  assumes "saveDb slacker (MapOf (AList.update hash subject al)) w = (None, w3)"
  shows "\<exists>db'. loadDb slacker w3 = (Inr db', w3) \<and> (hash = [] \<longrightarrow> entries db' [] = Some (utf8_coerce subject))"
proof -
  have "map_of (AList.update [] subject al) [] = Some subject"
    by (simp add: update_conv')
  then have "entries (reload (MapOf (AList.update [] subject al))) [] = Some (utf8_coerce subject)"
    by (simp add: reloaded_empty_key)
  with loadDb_after_saveDb[OF assms] show ?thesis
    by auto
qed

lemma loadDb_same_file:
  assumes "files w' (DatabaseFilePath slacker) = files w (DatabaseFilePath slacker)"
    and "files w (DatabaseFilePath slacker) \<noteq> None"
  shows "fst (loadDb slacker w') = fst (loadDb slacker w)"
proof -
  obtain c where "files w (DatabaseFilePath slacker) = Some c"
    using assms(2) by blast
  with assms(1) show ?thesis
    by (simp add: loadDb_present)
qed

lemma inDb_True:
  "fst (inDb slacker hash w) \<longleftrightarrow> (\<exists>db. loadDb slacker w = (Inr db, w) \<and> entries db hash \<noteq> None)"
proof (cases "loadDb slacker w")
  case (Pair r w1)
  show ?thesis
  proof (cases r)
    case (Inl e)
    with Pair show ?thesis by (simp add: inDb_Inl)
  next
    case (Inr db)
    with Pair have "w1 = w" using loadDb_Inr by blast
    with Pair Inr show ?thesis by (simp add: inDb_Inr)
  qed
qed

lemma inDb_same_file:
  assumes "fst (inDb slacker hash w)"
    and "files w' (DatabaseFilePath slacker) = files w (DatabaseFilePath slacker)"
  shows "fst (inDb slacker hash w')"
proof -
  from assms(1) obtain db where db: "loadDb slacker w = (Inr db, w)" "entries db hash \<noteq> None"
    using inDb_True by blast
  then have "files w (DatabaseFilePath slacker) \<noteq> None"
    using loadDb_Inr by blast
  with assms(2) have "fst (loadDb slacker w') = Inr db"
    using loadDb_same_file db(1) by fastforce
  then have "loadDb slacker w' = (Inr db, w')"
    using loadDb_Inr by (metis prod.collapse)
  with db(2) show ?thesis
    using inDb_True by blast
qed

lemma Send_loop_files: "files (snd (Send_loop slacker message rs w)) = files w"
proof (induction rs arbitrary: w)
  case Nil
  show ?case by simp
next
  case (Cons x rs)
  show ?case
  proof (cases "send slacker (slackMessage slacker message x) w")
    case (Pair r w1)
    have f: "files w1 = files w"
      using Pair by (auto simp: send_def Let_def split: sum.splits if_splits)
    show ?thesis
    proof (cases r)
      case (Inl e)
      with Pair f show ?thesis by (simp add: Printf_def)
    next
      case (Inr response)
      with Pair f show ?thesis
        using Cons.IH[of "Printf slacker ''Send message %s: %s %s''
                   [Str (MessageTag slacker), Str message, Str response] w1"]
        by (simp add: Printf_def)
    qed
  qed
qed

lemma Send_None:
  assumes "setDefaults slacker0 = Inr slacker"
    and "Send slacker0 message w = (Inr None, w1)"
  shows "(fst (needToSend slacker (getHash slacker message w) w) = False \<and>
          w1 = Printf slacker ''Skip message %s: %s'' [Str (getHash slacker message w), Str message] w) \<or>
         (\<exists>wa wb. addToDb slacker (getHash slacker message w) message wb = (Inr None, w1))"
proof (cases "needToSend slacker (getHash slacker message w) w")
  case (Pair need wa)
  show ?thesis
  proof (cases need)
    case False
    with Pair have "needToSend slacker (getHash slacker message w) w = (False, w)"
      using needToSend_False[of slacker "getHash slacker message w" w] by simp
    with assms show ?thesis
      by (simp add: Send_def)
  next
    case True
    with Pair assms show ?thesis
      by (auto simp: Send_def split: prod.splits option.splits sum.splits)
  qed
qed

text \<open>
  Claim C10. For a \<^verbatim>\<open>Frequency\<close> that is none of \<^verbatim>\<open>NotifyAlways\<close>, \<^verbatim>\<open>NotifyOnceHour\<close> and
  \<^verbatim>\<open>NotifyOnceDay\<close>, the fingerprint of every message at every time is the empty string, and
  the dedup decision is still taken from the store: \<^verbatim>\<open>needToSend\<close> is true exactly when the
  empty key is not in the Record. After a \<^verbatim>\<open>Send\<close> that returns nil, the empty key is in the
  Record. Once it is, every \<^verbatim>\<open>Send\<close> with that configuration, for any message, only logs the
  skip line and returns nil: no POST is made and no file is written; and the empty key stays
  in the Record in every later world whose backing file is the same, whatever its clock.
\<close>

theorem Send_unknown_frequency:
  assumes "setDefaults slacker0 = Inr slacker"
    and "Frequency slacker0 \<noteq> NotifyAlways"
    and "Frequency slacker0 \<noteq> NotifyOnceHour"
    and "Frequency slacker0 \<noteq> NotifyOnceDay"
  shows "getHash slacker message w = [] \<and>
         fst (needToSend slacker [] w) = (\<not> fst (inDb slacker [] w)) \<and>
         (\<forall>w1. Send slacker0 message w = (Inr None, w1) \<longrightarrow> fst (inDb slacker [] w1)) \<and>
         (fst (inDb slacker [] w) \<longrightarrow>
            (\<forall>message'. Send slacker0 message' w =
               (Inr None, Printf slacker ''Skip message %s: %s'' [Str [], Str message'] w)) \<and>
            (\<forall>w'. files w' (DatabaseFilePath slacker) = files w (DatabaseFilePath slacker) \<longrightarrow>
               fst (inDb slacker [] w')))"
proof -
  have fr: "Frequency slacker \<noteq> NotifyAlways" "Frequency slacker \<noteq> NotifyOnceHour"
    "Frequency slacker \<noteq> NotifyOnceDay"
    using assms setDefaults_Frequency by simp_all
  have h: "getHash slacker m v = []" for m v
    using fr by (simp add: getHash_other)
  have n: "fst (needToSend slacker [] v) = (\<not> fst (inDb slacker [] v))" for v
    using fr by (simp add: needToSend_eq)
  have rec: "fst (inDb slacker [] w1)" if s: "Send slacker0 message w = (Inr None, w1)" for w1
  proof -
    from Send_None[OF assms(1) s] consider
      (skip) "fst (needToSend slacker [] w) = False"
        "w1 = Printf slacker ''Skip message %s: %s'' [Str [], Str message] w"
      | (sent) wb where "addToDb slacker [] message wb = (Inr None, w1)"
      by (auto simp: h)
    then show ?thesis
    proof cases
      case skip
      then have "fst (inDb slacker [] w)"
        by (simp add: n)
      moreover have "files w1 (DatabaseFilePath slacker) = files w (DatabaseFilePath slacker)"
        using skip(2) by (simp add: Printf_def)
      ultimately show ?thesis
        by (rule inDb_same_file)
    next
      case sent
      then obtain al where "saveDb slacker (MapOf (AList.update [] message al)) wb = (None, w1)"
        using addToDb_None by blast
      then obtain db' where "loadDb slacker w1 = (Inr db', w1)" "entries db' [] = Some (utf8_coerce message)"
        using loadDb_after_record by blast
      then show ?thesis
        using inDb_True by fastforce
    qed
  qed
  have sup: "Send slacker0 message' w =
               (Inr None, Printf slacker ''Skip message %s: %s'' [Str [], Str message'] w)"
    if "fst (inDb slacker [] w)" for message'
  proof -
    from that have "fst (needToSend slacker [] w) = False"
      by (simp add: n)
    then have "needToSend slacker [] w = (False, w)"
      using needToSend_False by blast
    with assms(1) show ?thesis
      by (simp add: Send_def h)
  qed
  have keep: "fst (inDb slacker [] w')"
    if "fst (inDb slacker [] w)" "files w' (DatabaseFilePath slacker) = files w (DatabaseFilePath slacker)" for w'
    using that by (rule inDb_same_file)
  show ?thesis
    apply (intro conjI allI impI)
        apply (rule h)
       apply (rule n)
      apply (erule rec)
     apply (erule sup)
    apply (erule keep, assumption)
    done
qed

text \<open>
  A run with \<^verbatim>\<open>Frequency = 7\<close>: the first send records the empty key; seven years later, a
  send of another message is skipped.
\<close>

lemma setDefaults_example_Frequency:
  "setDefaults (example_slacker\<lparr>Frequency := f\<rparr>) = Inr (ready_slacker\<lparr>Frequency := f\<rparr>)"
  by (simp add: setDefaults_def example_slacker_def ready_slacker_def DefaultIconEmoji_def
      DefaultUsername_def DefaultMessageTag_def DefaultDatabaseFilePath_def)

lemma Send_example_odd:
  "fst (Send (example_slacker\<lparr>Frequency := 7\<rparr>) ''disk full'' example_world) = Inr None"
  by code_simp

theorem Send_unknown_frequency_witness:
  "getHash (ready_slacker\<lparr>Frequency := 7\<rparr>) ''disk full'' example_world = [] \<and>
   fst (Send (example_slacker\<lparr>Frequency := 7\<rparr>) ''disk full'' example_world) = Inr None \<and>
   fst (inDb (ready_slacker\<lparr>Frequency := 7\<rparr>) []
          (snd (Send (example_slacker\<lparr>Frequency := 7\<rparr>) ''disk full'' example_world))) \<and>
   Send (example_slacker\<lparr>Frequency := 7\<rparr>) ''cpu hot''
     (snd (Send (example_slacker\<lparr>Frequency := 7\<rparr>) ''disk full'' example_world)
        \<lparr>clock := \<lparr>year = 2031, month = 5, day = 9, hour = 3\<rparr>\<rparr>) =
     (Inr None,
      Printf (ready_slacker\<lparr>Frequency := 7\<rparr>) ''Skip message %s: %s'' [Str [], Str ''cpu hot'']
        (snd (Send (example_slacker\<lparr>Frequency := 7\<rparr>) ''disk full'' example_world)
           \<lparr>clock := \<lparr>year = 2031, month = 5, day = 9, hour = 3\<rparr>\<rparr>))"
proof -
  let ?given = "example_slacker\<lparr>Frequency := 7\<rparr>"
  let ?ready = "ready_slacker\<lparr>Frequency := 7\<rparr>"
  let ?after = "snd (Send ?given ''disk full'' example_world)"
  let ?later = "?after\<lparr>clock := \<lparr>year = 2031, month = 5, day = 9, hour = 3\<rparr>\<rparr>"
  have f: "Frequency ?given \<noteq> NotifyAlways" "Frequency ?given \<noteq> NotifyOnceHour" "Frequency ?given \<noteq> NotifyOnceDay"
    by (simp_all add: NotifyAlways_def NotifyOnceHour_def NotifyOnceDay_def)
  note t = Send_unknown_frequency[OF setDefaults_example_Frequency f]
  have s: "Send ?given ''disk full'' example_world = (Inr None, ?after)"
    using Send_example_odd by (simp add: prod_eq_iff)
  have h: "getHash ?ready ''disk full'' example_world = []"
    using t[of "''disk full''" example_world] by (rule conjunct1)
  have r: "fst (inDb ?ready [] ?after)"
    using t[of "''disk full''" example_world, THEN conjunct2, THEN conjunct2, THEN conjunct1] s
    by blast
  have "files ?later (DatabaseFilePath ?ready) = files ?after (DatabaseFilePath ?ready)"
    by simp
  with r have r2: "fst (inDb ?ready [] ?later)"
    using t[of "''disk full''" ?after, THEN conjunct2, THEN conjunct2, THEN conjunct2] by blast
  have "Send ?given ''cpu hot'' ?later =
     (Inr None, Printf ?ready ''Skip message %s: %s'' [Str [], Str ''cpu hot''] ?later)"
    using t[of "''disk full''" ?later, THEN conjunct2, THEN conjunct2, THEN conjunct2] r2 by blast
  with h r show ?thesis
    using Send_example_odd by simp
qed

text \<open>
  Claim C9. Under \<^verbatim>\<open>NotifyAlways\<close> the fingerprint is the empty string and \<^verbatim>\<open>needToSend\<close> is
  true without reading the store. When every delivery of \<^verbatim>\<open>Send\<close> succeeds, \<^verbatim>\<open>Send\<close> still runs
  \<^verbatim>\<open>addToDb\<close> with the empty key and the message, in the world the deliveries left: what \<^verbatim>\<open>Send\<close>
  returns is what \<^verbatim>\<open>addToDb\<close> returns, so an error of the store (the load, or the save) is
  returned, and logged as a failure to send, although all deliveries succeeded. When \<^verbatim>\<open>Send\<close>
  returns nil, the Record was loaded from the existing backing file, the entry of the empty
  key was set to the message, and the whole Record was written from the start of the file:
  the next load returns a Record whose entry for the empty key is the message (as
  \<^verbatim>\<open>encoding/json\<close> stores it), whatever that entry was before. So repeated sends under
  \<^verbatim>\<open>NotifyAlways\<close> overwrite the one entry of the empty key.
\<close>

theorem Send_always_records:
  assumes "setDefaults slacker0 = Inr slacker"
    and "Frequency slacker0 = NotifyAlways"
    and "Send_loop slacker message (To slacker) w = (None, w2)"
  shows "getHash slacker message w = [] \<and>
         fst (Send slacker0 message w) = fst (addToDb slacker [] message w2) \<and>
         (\<forall>err w3. addToDb slacker [] message w2 = (Inr (Some err), w3) \<longrightarrow>
            Send slacker0 message w =
              (Inr (Some err), Printf slacker ''Slacker failed to send message: %s'' [Err err] w3)) \<and>
         (\<forall>w3. Send slacker0 message w = (Inr None, w3) \<longrightarrow>
            (\<exists>al old db'.
               loadDb slacker w2 = (Inr (MapOf al), w2) \<and>
               files w2 (DatabaseFilePath slacker) = Some old \<and>
               files w3 (DatabaseFilePath slacker) =
                 Some (overwrite old 0 (json_Marshal (MapOf (AList.update [] message al)) @ [CHR 0x0A])) \<and>
               loadDb slacker w3 = (Inr db', w3) \<and>
               entries db' [] = Some (utf8_coerce message)))"
proof -
  have fr: "Frequency slacker = NotifyAlways"
    using assms(1,2) setDefaults_Frequency by simp
  have h: "getHash slacker message w = []"
    using fr by (simp add: getHash_other NotifyAlways_def NotifyOnceHour_def NotifyOnceDay_def)
  have n: "needToSend slacker [] w = (True, w)"
    using fr by (simp add: needToSend_def)
  have s: "Send slacker0 message w =
      (case addToDb slacker [] message w2 of
         (Inl p, w3) \<Rightarrow> (Inl p, w3)
       | (Inr (Some err), w3) \<Rightarrow>
           (Inr (Some err), Printf slacker ''Slacker failed to send message: %s'' [Err err] w3)
       | (Inr None, w3) \<Rightarrow> (Inr None, w3))"
    using assms(1,3) by (simp add: Send_def h n)
  have r: "fst (Send slacker0 message w) = fst (addToDb slacker [] message w2)"
    by (simp add: s split: prod.splits sum.splits option.splits)
  have e: "Send slacker0 message w =
              (Inr (Some err), Printf slacker ''Slacker failed to send message: %s'' [Err err] w3)"
    if "addToDb slacker [] message w2 = (Inr (Some err), w3)" for err w3
    using that by (simp add: s)
  have ok: "\<exists>al old db'.
               loadDb slacker w2 = (Inr (MapOf al), w2) \<and>
               files w2 (DatabaseFilePath slacker) = Some old \<and>
               files w3 (DatabaseFilePath slacker) =
                 Some (overwrite old 0 (json_Marshal (MapOf (AList.update [] message al)) @ [CHR 0x0A])) \<and>
               loadDb slacker w3 = (Inr db', w3) \<and>
               entries db' [] = Some (utf8_coerce message)"
    if "Send slacker0 message w = (Inr None, w3)" for w3
  proof -
    from that have "addToDb slacker [] message w2 = (Inr None, w3)"
      by (auto simp: s split: prod.splits sum.splits option.splits)
    then obtain al where l: "loadDb slacker w2 = (Inr (MapOf al), w2)"
      and sv: "saveDb slacker (MapOf (AList.update [] message al)) w2 = (None, w3)"
      using addToDb_None by blast
    from sv obtain old where old: "files w2 (DatabaseFilePath slacker) = Some old"
      and w3: "w3 = w2\<lparr>files := (files w2)(DatabaseFilePath slacker \<mapsto>
                  json_Marshal (MapOf (AList.update [] message al)) @ CHR 0x0A #
                  drop (Suc (length (json_Marshal (MapOf (AList.update [] message al))))) old)\<rparr>"
      using saveDb_None by blast
    have f3: "files w3 (DatabaseFilePath slacker) =
        Some (overwrite old 0 (json_Marshal (MapOf (AList.update [] message al)) @ [CHR 0x0A]))"
      by (simp add: w3 overwrite_0)
    from sv obtain db' where "loadDb slacker w3 = (Inr db', w3)" "entries db' [] = Some (utf8_coerce message)"
      using loadDb_after_record by blast
    with l old f3 show ?thesis
      by blast
  qed
  show ?thesis
    apply (intro conjI allI impI)
       apply (rule h)
      apply (rule r)
     apply (erule e)
    apply (erule ok)
    done
qed

text \<open>
  Two runs under \<^verbatim>\<open>NotifyAlways\<close>. With no backing file, both recipients are posted to, and
  \<^verbatim>\<open>Send\<close> returns the failure of the store (the first load of a missing file fails with
  \<^verbatim>\<open>EOF\<close>). With a backing file that holds the entry of the empty key for
  \<^verbatim>\<open>disk full\<close>, sending \<^verbatim>\<open>cpu hot\<close> returns nil and the entry of the empty key is now
  \<^verbatim>\<open>cpu hot\<close>; the shorter JSON text is followed by what remains of the longer one.
\<close>

lemma Send_loop_example_always:
  "fst (Send_loop (ready_slacker\<lparr>Frequency := NotifyAlways\<rparr>) ''disk full''
          (To (ready_slacker\<lparr>Frequency := NotifyAlways\<rparr>)) example_world) = None"
  by code_simp

lemma addToDb_example_always:
  "fst (addToDb (ready_slacker\<lparr>Frequency := NotifyAlways\<rparr>) [] ''disk full''
          (snd (Send_loop (ready_slacker\<lparr>Frequency := NotifyAlways\<rparr>) ''disk full''
                  (To (ready_slacker\<lparr>Frequency := NotifyAlways\<rparr>)) example_world))) =
   Inr (Some (Errorf ''Slacker failed to add %s:%s to database: %s''
          [Str [], Str ''disk full'', Err (Errorf ''Slacker failed to load database: %s'' [Err EOF])]))"
  by code_simp

lemma Send_loop_example_posts:
  "map snd (posts (snd (Send_loop (ready_slacker\<lparr>Frequency := NotifyAlways\<rparr>) ''disk full''
                  (To (ready_slacker\<lparr>Frequency := NotifyAlways\<rparr>)) example_world))) =
   [slackMessage (ready_slacker\<lparr>Frequency := NotifyAlways\<rparr>) ''disk full'' \<lparr>Channel = ''#ops'', Username = ''bot''\<rparr>,
    slackMessage (ready_slacker\<lparr>Frequency := NotifyAlways\<rparr>) ''disk full'' \<lparr>Channel = ''#oncall'', Username = ''bot''\<rparr>]"
  by code_simp

lemma Send_loop_noted_always:
  "fst (Send_loop (ready_slacker\<lparr>Frequency := NotifyAlways\<rparr>) ''cpu hot''
          (To (ready_slacker\<lparr>Frequency := NotifyAlways\<rparr>)) noted_world) = None"
  by code_simp

lemma Send_noted_always:
  "fst (Send (example_slacker\<lparr>Frequency := NotifyAlways\<rparr>) ''cpu hot'' noted_world) = Inr None"
  by code_simp

lemma Send_noted_always_file:
  \<open>files (snd (Send (example_slacker\<lparr>Frequency := NotifyAlways\<rparr>) ''cpu hot'' noted_world)) ''slacker.json'' =
   Some (''{"":"cpu hot"}'' @ CHR 0x0A # ''}'' @ [CHR 0x0A])\<close>
  by code_simp

theorem Send_always_records_witness:
  \<open>getHash (ready_slacker\<lparr>Frequency := NotifyAlways\<rparr>) ''disk full'' example_world = [] \<and>
   map snd (posts (snd (Send_loop (ready_slacker\<lparr>Frequency := NotifyAlways\<rparr>) ''disk full''
                  (To (ready_slacker\<lparr>Frequency := NotifyAlways\<rparr>)) example_world))) =
     [slackMessage (ready_slacker\<lparr>Frequency := NotifyAlways\<rparr>) ''disk full'' \<lparr>Channel = ''#ops'', Username = ''bot''\<rparr>,
      slackMessage (ready_slacker\<lparr>Frequency := NotifyAlways\<rparr>) ''disk full'' \<lparr>Channel = ''#oncall'', Username = ''bot''\<rparr>] \<and>
   fst (Send (example_slacker\<lparr>Frequency := NotifyAlways\<rparr>) ''disk full'' example_world) =
     Inr (Some (Errorf ''Slacker failed to add %s:%s to database: %s''
            [Str [], Str ''disk full'', Err (Errorf ''Slacker failed to load database: %s'' [Err EOF])])) \<and>
   fst (Send (example_slacker\<lparr>Frequency := NotifyAlways\<rparr>) ''cpu hot'' noted_world) = Inr None \<and>
   files noted_world ''slacker.json'' = Some (''{"":"disk full"}'' @ [CHR 0x0A]) \<and>
   files (snd (Send (example_slacker\<lparr>Frequency := NotifyAlways\<rparr>) ''cpu hot'' noted_world)) ''slacker.json'' =
     Some (''{"":"cpu hot"}'' @ CHR 0x0A # ''}'' @ [CHR 0x0A]) \<and>
   (\<exists>db'. loadDb (ready_slacker\<lparr>Frequency := NotifyAlways\<rparr>)
            (snd (Send (example_slacker\<lparr>Frequency := NotifyAlways\<rparr>) ''cpu hot'' noted_world)) =
            (Inr db', snd (Send (example_slacker\<lparr>Frequency := NotifyAlways\<rparr>) ''cpu hot'' noted_world)) \<and>
          entries db' [] = Some ''cpu hot'')\<close>
proof -
  let ?given = "example_slacker\<lparr>Frequency := NotifyAlways\<rparr>"
  let ?ready = "ready_slacker\<lparr>Frequency := NotifyAlways\<rparr>"
  let ?sent = "snd (Send_loop ?ready ''disk full'' (To ?ready) example_world)"
  let ?sent' = "snd (Send_loop ?ready ''cpu hot'' (To ?ready) noted_world)"
  let ?after = "snd (Send ?given ''cpu hot'' noted_world)"
  have f: "Frequency ?given = NotifyAlways"
    by simp
  have l: "Send_loop ?ready ''disk full'' (To ?ready) example_world = (None, ?sent)"
    using Send_loop_example_always by (simp add: prod_eq_iff)
  have l': "Send_loop ?ready ''cpu hot'' (To ?ready) noted_world = (None, ?sent')"
    using Send_loop_noted_always by (simp add: prod_eq_iff)
  note t = Send_always_records[OF setDefaults_example_Frequency f l]
  note t' = Send_always_records[OF setDefaults_example_Frequency f l']
  have h: "getHash ?ready ''disk full'' example_world = []"
    using t by (rule conjunct1)
  have "fst (Send ?given ''disk full'' example_world) = fst (addToDb ?ready [] ''disk full'' ?sent)"
    using t[THEN conjunct2] by (rule conjunct1)
  then have e: "fst (Send ?given ''disk full'' example_world) =
     Inr (Some (Errorf ''Slacker failed to add %s:%s to database: %s''
            [Str [], Str ''disk full'', Err (Errorf ''Slacker failed to load database: %s'' [Err EOF])]))"
    by (simp only: addToDb_example_always)
  have s: "Send ?given ''cpu hot'' noted_world = (Inr None, ?after)"
    using Send_noted_always by (simp add: prod_eq_iff)
  from t'[THEN conjunct2, THEN conjunct2, THEN conjunct2] s
  obtain db' where d: "loadDb ?ready ?after = (Inr db', ?after)"
    "entries db' [] = Some (utf8_coerce ''cpu hot'')"
    by blast
  have u: "utf8_coerce ''cpu hot'' = ''cpu hot''"
    by code_simp
  have n: \<open>files noted_world ''slacker.json'' = Some (''{"":"disk full"}'' @ [CHR 0x0A])\<close>
    by (simp add: noted_world_def)
  from d u have x: "\<exists>db'. loadDb ?ready ?after = (Inr db', ?after) \<and> entries db' [] = Some ''cpu hot''"
    by auto
  show ?thesis
    apply (intro conjI)
          apply (rule h)
         apply (rule Send_loop_example_posts)
        apply (rule e)
       apply (rule Send_noted_always)
      apply (rule n)
     apply (rule Send_noted_always_file)
    apply (rule x)
    done
qed

end
